theory Spec2Isabelle
  imports Complex_Main "HOL-Library.Word"
begin

section \<open>Strings and the patterns of \<open>predict.py\<close>\<close>

text \<open>
  Python strings are modelled as \<open>string\<close> (one \<open>char\<close> per character). The source
  uses five regular expressions, all anchored at the start of the string; each one is
  translated into a matcher of its own below, next to the pattern it stands for. In all
  of them \<open>[a-zA-Z0-9_-]\<close> is \<open>slug_char\<close>, the dot of a pattern is any character but
  the newline, and a final \<open>$\<close> holds at the end of the string or just before a newline
  that ends it (Python's \<open>re\<close> without flags).
\<close>

definition newline :: char where
  "newline = CHR 0x0A"

definition slug_char :: "char \<Rightarrow> bool" where
  "slug_char c \<longleftrightarrow>
     c \<in> set ''abcdefghijklmnopqrstuvwxyzABCDEFGHIJKLMNOPQRSTUVWXYZ0123456789_-''"

definition startswith :: "string \<Rightarrow> string \<Rightarrow> bool" where
  \<comment> \<open>\<open>s.startswith(p)\<close>\<close>
  "startswith p s \<longleftrightarrow> take (length p) s = p"

definition endswith :: "string \<Rightarrow> string \<Rightarrow> bool" where
  \<comment> \<open>\<open>s.endswith(p)\<close>\<close>
  "endswith p s \<longleftrightarrow> length p \<le> length s \<and> drop (length s - length p) s = p"

fun contains :: "string \<Rightarrow> string \<Rightarrow> bool" where
  \<comment> \<open>\<open>sub in s\<close>\<close>
  "contains sub [] = (sub = [])"
| "contains sub (c # cs) = (startswith sub (c # cs) \<or> contains sub cs)"

definition last_segment :: "string \<Rightarrow> string" where
  \<comment> \<open>\<open>s.split('/')[-1]\<close>: what follows the last slash, the whole string without one\<close>
  "last_segment s = rev (takeWhile (\<lambda>c. c \<noteq> CHR ''/'') (rev s))"

definition strip_scheme :: "string \<Rightarrow> string option" where
  \<comment> \<open>the prefix \<open>^https?://\<close>: what follows it, when the string starts with it\<close>
  "strip_scheme s =
     (if startswith ''https://'' s then Some (drop 8 s)
      else if startswith ''http://'' s then Some (drop 7 s)
      else None)"

definition dollar :: "string \<Rightarrow> bool" where
  \<comment> \<open>\<open>$\<close> against the rest of the input\<close>
  "dollar r \<longleftrightarrow> r = [] \<or> r = [newline]"

definition two_segments :: "string \<Rightarrow> (string \<times> string) option" where
  \<comment> \<open>\<open>[a-zA-Z0-9_-]+/[a-zA-Z0-9_-]+\<close> at the start of the input: the text it matches
      (both repetitions are greedy, and a slash is no \<open>slug_char\<close>) and the rest\<close>
  "two_segments s =
     (let a = takeWhile slug_char s; r1 = dropWhile slug_char s in
      if a = [] then None
      else (case r1 of
              [] \<Rightarrow> None
            | c # r2 \<Rightarrow>
                if c \<noteq> CHR ''/'' then None
                else (let b = takeWhile slug_char r2; r3 = dropWhile slug_char r2 in
                      if b = [] then None else Some (a @ ''/'' @ b, r3))))"

definition match_hf_path :: "string \<Rightarrow> bool" where
  \<comment> \<open>\<open>re.match(r"^[a-zA-Z0-9_-]+/[a-zA-Z0-9_-]+$", s)\<close>\<close>
  "match_hf_path s = (case two_segments s of None \<Rightarrow> False | Some (m, r) \<Rightarrow> dollar r)"

definition any_then :: "string \<Rightarrow> string \<Rightarrow> string option" where
  \<comment> \<open>one dot of a pattern followed by the literal \<open>p\<close>: the rest of the input after them\<close>
  "any_then p s =
     (case s of
        [] \<Rightarrow> None
      | c # r \<Rightarrow> if c \<noteq> newline \<and> startswith p r then Some (drop (length p) r) else None)"

definition literal :: "string \<Rightarrow> string \<Rightarrow> string option" where
  \<comment> \<open>a literal \<open>p\<close> at the start of the input: the rest after it\<close>
  "literal p s = (if startswith p s then Some (drop (length p) s) else None)"

definition after_hf_host :: "string \<Rightarrow> string option" where
  \<comment> \<open>\<open>^https?://huggingface.co\<close>: the rest of the input after the match\<close>
  "after_hf_host s =
     (case strip_scheme s of
        None \<Rightarrow> None
      | Some r \<Rightarrow>
          (case literal ''huggingface'' r of None \<Rightarrow> None | Some r1 \<Rightarrow> any_then ''co'' r1))"

definition match_hf_url :: "string \<Rightarrow> bool" where
  \<comment> \<open>\<open>re.match(r"^https?://huggingface.co", s)\<close>\<close>
  "match_hf_url s \<longleftrightarrow> after_hf_host s \<noteq> None"

definition search_hf_slug :: "string \<Rightarrow> string option" where
  \<comment> \<open>\<open>re.search(r"^https?://huggingface.co/([a-zA-Z0-9_-]+/[a-zA-Z0-9_-]+)", s)\<close>:
      group 1 of the match, \<open>None\<close> when there is no match\<close>
  "search_hf_slug s =
     (case after_hf_host s of
        None \<Rightarrow> None
      | Some r \<Rightarrow>
          (case literal ''/'' r of
             None \<Rightarrow> None
           | Some r1 \<Rightarrow> (case two_segments r1 of None \<Rightarrow> None | Some (m, r2) \<Rightarrow> Some m)))"

definition match_weight_url :: "string \<Rightarrow> bool" where
  \<comment> \<open>\<open>re.match(r"^https?://.*\.(safetensors|tar)$", s)\<close>: \<open>.*\<close> crosses no newline, so
      the text between the scheme and \<open>$\<close> is free of newlines and ends with one of the
      two extensions\<close>
  "match_weight_url s =
     (case strip_scheme s of
        None \<Rightarrow> False
      | Some r \<Rightarrow>
          (let body = (if r \<noteq> [] \<and> last r = newline then butlast r else r) in
           newline \<notin> set body \<and>
           (endswith ''.safetensors'' body \<or> endswith ''.tar'' body)))"

definition match_replicate_url :: "string \<Rightarrow> bool" where
  \<comment> \<open>\<open>re.match(r"^https?://replicate.delivery/[a-zA-Z0-9_-]+/[a-zA-Z0-9_-]+/trained_model.tar", s)\<close>\<close>
  "match_replicate_url s =
     (case strip_scheme s of
        None \<Rightarrow> False
      | Some r \<Rightarrow>
          (case literal ''replicate'' r of
             None \<Rightarrow> False
           | Some r1 \<Rightarrow>
               (case any_then ''delivery/'' r1 of
                  None \<Rightarrow> False
                | Some r2 \<Rightarrow>
                    (case two_segments r2 of
                       None \<Rightarrow> False
                     | Some (m, r3) \<Rightarrow>
                         (case literal ''/trained_model'' r3 of
                            None \<Rightarrow> False
                          | Some r4 \<Rightarrow> any_then ''tar'' r4 \<noteq> None)))))"

fun digits :: "nat \<Rightarrow> string" where
  \<comment> \<open>the decimal text of a count, as an f-string prints it\<close>
  "digits n =
     (if n < 10 then [''0123456789'' ! n]
      else digits (n div 10) @ [''0123456789'' ! (n mod 10)])"

declare digits.simps [simp del]

section \<open>Aspect ratios and the seed\<close>

definition aspect_ratios :: "(string \<times> (int \<times> int)) list" where
  "aspect_ratios =
     [(''1:1'', (1024, 1024)), (''16:9'', (1344, 768)), (''21:9'', (1536, 640)),
      (''3:2'', (1216, 832)), (''2:3'', (832, 1216)), (''4:5'', (896, 1088)),
      (''5:4'', (1088, 896)), (''9:16'', (768, 1344)), (''9:21'', (640, 1536))]"

definition aspect_ratio_to_width_height :: "string \<Rightarrow> (int \<times> int) option" where
  \<comment> \<open>\<open>aspect_ratios.get(aspect_ratio)\<close>: \<open>None\<close> for a key the dict does not have\<close>
  "aspect_ratio_to_width_height aspect_ratio = map_of aspect_ratios aspect_ratio"

definition int_from_bytes_big :: "8 word list \<Rightarrow> int" where
  \<comment> \<open>\<open>int.from_bytes(bs, "big")\<close>\<close>
  "int_from_bytes_big bs = foldl (\<lambda>acc b. acc * 256 + uint b) 0 bs"


section \<open>Errors, external calls and the process state\<close>

datatype error =
    TypeError  \<comment> \<open>unpacking \<open>None\<close> into \<open>width, height\<close>\<close>
  | AttributeError  \<comment> \<open>\<open>.group(1)\<close> on the \<open>None\<close> of a failed \<open>re.search\<close>\<close>
  | CalledProcessError int  \<comment> \<open>\<open>subprocess.check_call\<close>, with the exit status\<close>
  | Exception string  \<comment> \<open>\<open>raise Exception(message)\<close>\<close>
  | LibraryError string  \<comment> \<open>raised inside an external library call\<close>

text \<open>
  The keyword arguments with which the diffusion pipeline is called:
  \<open>flux_kwargs\<close> and the fixed arguments of line 190. The two floats are carried
  through and never computed with.
\<close>

record pipe_args =
  p_prompt :: string
  p_guidance_scale :: real
  p_num_inference_steps :: int
  p_max_sequence_length :: int
  p_width :: int
  p_height :: int
  p_joint_attention_kwargs :: "real option"

type_synonym lora = "string \<times> string option"
  \<comment> \<open>the arguments of one \<open>load_lora_weights\<close>: the path or slug and the \<open>weight_name\<close>\<close>

datatype 'img event =
    Subprocess "string list"  \<comment> \<open>\<open>subprocess.check_call(argv)\<close>\<close>
  | Remove string  \<comment> \<open>\<open>os.remove\<close>\<close>
  | ExtractTar string string  \<comment> \<open>\<open>extract_tar(tar_path, extract_path)\<close>\<close>
  | FromPretrained string  \<comment> \<open>a \<open>from_pretrained\<close> of \<open>setup\<close>\<close>
  | LoadLora string "string option"  \<comment> \<open>\<open>load_lora_weights\<close>\<close>
  | UnloadLora  \<comment> \<open>\<open>unload_lora_weights\<close>\<close>
  | ManualSeed int  \<comment> \<open>\<open>torch.Generator("cuda").manual_seed(seed)\<close>\<close>
  | PipeCall pipe_args  \<comment> \<open>one call of the pipeline\<close>
  | SafetyCheck 'img  \<comment> \<open>\<open>run_safety_checker([image])\<close>\<close>
  | Save 'img string "(int \<times> bool) option"
      \<comment> \<open>\<open>image.save(path, quality=q, optimize=o)\<close>, or \<open>image.save(path)\<close>\<close>

text \<open>
  The process state that outlives a call: the adapters attached to the pipeline handle,
  the paths that exist on local storage, and the external calls made so far, in order.
\<close>

record 'img world =
  adapters :: "lora list"
  files :: "string set"
  trace :: "'img event list"

text \<open>
  What the code cannot decide by itself is read from an environment: the bytes of the
  process random source, the exit status of a subprocess, the name of the temporary
  directory, the \<open>os.walk\<close> listing (root and file names of each directory) of an
  extracted archive or the error of the extraction, the error of a \<open>load_lora_weights\<close>
  if it raises, the generator a seed gives, the image and next generator state of a
  pipeline call or the error it raises, and the verdict of the safety classifier.
  The safety check, \<open>image.save\<close>, \<open>os.remove\<close>, \<open>unload_lora_weights\<close> and the
  \<open>from_pretrained\<close> calls are taken not to raise. Printing and the removal of the
  temporary directory are left out.
\<close>

record ('img, 'g) env =
  random_source :: "nat \<Rightarrow> 8 word"
  exit_status :: "string list \<Rightarrow> int"
  mkdtemp :: string
  tar_walk :: "string \<Rightarrow> string \<Rightarrow> error + (string \<times> string list) list"
  lora_error :: "string \<Rightarrow> string option \<Rightarrow> error option"
  manual_seed :: "int \<Rightarrow> 'g"
  pipe :: "pipe_args \<Rightarrow> lora list \<Rightarrow> 'g \<Rightarrow> error + ('img \<times> 'g)"
  has_nsfw_concept :: "'img \<Rightarrow> bool"

definition os_urandom :: "('img, 'g) env \<Rightarrow> nat \<Rightarrow> 8 word list" where
  \<comment> \<open>\<open>os.urandom(n)\<close>: \<open>n\<close> bytes of the random source\<close>
  "os_urandom env n = map (random_source env) [0..<n]"

definition emit :: "'img event \<Rightarrow> 'img world \<Rightarrow> 'img world" where
  "emit ev st = st\<lparr>trace := trace st @ [ev]\<rparr>"

definition MODEL_CACHE :: string where "MODEL_CACHE = ''checkpoints''"
definition MODEL_URL :: string where
  "MODEL_URL = ''https://weights.replicate.delivery/default/black-forest-labs/FLUX.1-dev/model-cache.tar''"
definition SAFETY_CACHE :: string where "SAFETY_CACHE = ''safety-cache''"
definition FEATURE_EXTRACTOR :: string where "FEATURE_EXTRACTOR = ''feature-extractor''"
definition SAFETY_URL :: string where
  "SAFETY_URL = ''https://weights.replicate.delivery/default/sdxl/safety-1.0.tar''"

section \<open>Downloading weights and \<open>setup\<close>\<close>

definition check_call :: "('img, 'g) env \<Rightarrow> string list \<Rightarrow> 'img world \<Rightarrow> error option \<times> 'img world" where
  \<comment> \<open>\<open>subprocess.check_call(argv)\<close>: one run of the command, an error when its exit
      status is not zero\<close>
  "check_call env argv st =
     (let st1 = emit (Subprocess argv) st in
      if exit_status env argv = 0 then (None, st1)
      else (Some (CalledProcessError (exit_status env argv)), st1))"

definition download_weights ::
  "('img, 'g) env \<Rightarrow> string \<Rightarrow> string \<Rightarrow> bool \<Rightarrow> 'img world \<Rightarrow> error option \<times> 'img world" where
  \<comment> \<open>a download that succeeds leaves \<open>dest\<close> on local storage\<close>
  "download_weights env url dest file st =
     (case (if \<not> file then check_call env [''pget'', ''-x'', url, dest] st
            else check_call env [''pget'', url, dest] st) of
        (Some e, st1) \<Rightarrow> (Some e, st1)
      | (None, st1) \<Rightarrow> (None, st1\<lparr>files := insert dest (files st1)\<rparr>))"

definition provision ::
  "('img, 'g) env \<Rightarrow> string \<Rightarrow> string \<Rightarrow> 'img world \<Rightarrow> error option \<times> 'img world" where
  \<comment> \<open>the statement \<open>if not os.path.exists(dest): download_weights(url, dest)\<close>, which
      \<open>setup\<close> has twice (lines 48-49 and 56-57)\<close>
  "provision env url dest st =
     (if dest \<notin> files st then download_weights env url dest False st else (None, st))"

definition Predictor_setup :: "('img, 'g) env \<Rightarrow> 'img world \<Rightarrow> error option \<times> 'img world" where
  \<comment> \<open>the method \<open>setup\<close> of the class \<open>Predictor\<close>; its \<open>from_pretrained\<close> calls are recorded only\<close>
  "Predictor_setup env st =
     (case provision env SAFETY_URL SAFETY_CACHE st of
        (Some e, st1) \<Rightarrow> (Some e, st1)
      | (None, st1) \<Rightarrow>
          (let st2 = emit (FromPretrained FEATURE_EXTRACTOR) (emit (FromPretrained SAFETY_CACHE) st1)
           in case provision env MODEL_URL MODEL_CACHE st2 of
                (Some e, st3) \<Rightarrow> (Some e, st3)
              | (None, st3) \<Rightarrow> (None, emit (FromPretrained ''black-forest-labs/FLUX.1-dev'') st3)))"

section \<open>Attaching and detaching adapter weights\<close>

definition load_lora_weights ::
  "('img, 'g) env \<Rightarrow> string \<Rightarrow> string option \<Rightarrow> 'img world \<Rightarrow> error option \<times> 'img world" where
  \<comment> \<open>the library call: the adapter is added to those the pipeline has, unless the call
      raises\<close>
  "load_lora_weights env name weight_name st =
     (let st1 = emit (LoadLora name weight_name) st in
      case lora_error env name weight_name of
        Some e \<Rightarrow> (Some e, st1)
      | None \<Rightarrow> (None, st1\<lparr>adapters := adapters st1 @ [(name, weight_name)]\<rparr>))"

definition unload_lora_weights :: "'img world \<Rightarrow> 'img world" where
  "unload_lora_weights st = (emit UnloadLora st)\<lparr>adapters := []\<rparr>"

definition os_remove :: "string \<Rightarrow> 'img world \<Rightarrow> 'img world" where
  "os_remove p st = (emit (Remove p) st)\<lparr>files := files st - {p}\<rparr>"

definition path_join :: "string \<Rightarrow> string \<Rightarrow> string" where
  \<comment> \<open>\<open>os.path.join(dirpath, f)\<close> of \<open>posixpath\<close>\<close>
  "path_join dirpath f =
     (if startswith ''/'' f then f
      else if dirpath = [] \<or> endswith ''/'' dirpath then dirpath @ f
      else dirpath @ ''/'' @ f)"

definition invalid_hf_lora :: string where
  "invalid_hf_lora =
     ''Invalid parameter for hf_lora, must be a HuggingFace path/URL, or URL to a .safetensors/.tar file''"

definition load_from_tar ::
  "('img, 'g) env \<Rightarrow> string \<Rightarrow> 'img world \<Rightarrow> error option \<times> 'img world" where
  \<comment> \<open>lines 167 to 177: the archive is extracted to a temporary directory and the first
      \<open>.safetensors\<close> file that \<open>os.walk\<close> finds there is loaded\<close>
  "load_from_tar env lora_path st =
     (let tmpdir = mkdtemp env;
          st1 = emit (ExtractTar lora_path tmpdir) st
      in case tar_walk env lora_path tmpdir of
           Inl e \<Rightarrow> (Some e, st1)
         | Inr walk \<Rightarrow>
             (case concat (map (\<lambda>(dirpath, fs).
                       map (path_join dirpath) (filter (endswith ''.safetensors'') fs)) walk) of
                [] \<Rightarrow> (Some (Exception ''No .safetensors file found in the tar archive.''), st1)
              | safetensors_file # _ \<Rightarrow> load_lora_weights env safetensors_file None st1))"

definition download_adapter ::
  "('img, 'g) env \<Rightarrow> string \<Rightarrow> 'img world \<Rightarrow> error option \<times> 'img world" where
  \<comment> \<open>lines 159 to 179: the branch of a weight-file or archive URL\<close>
  "download_adapter env hf_lora st =
     (let file_extension =
            (if endswith ''.tar'' hf_lora \<or> contains ''replicate.delivery'' hf_lora
             then ''tar'' else ''safetensors'');
          lora_path = ''/tmp/lora.'' @ file_extension;
          st1 = (if lora_path \<in> files st then os_remove lora_path st else st)
      in case download_weights env hf_lora lora_path True st1 of
           (Some e, st2) \<Rightarrow> (Some e, st2)
         | (None, st2) \<Rightarrow>
             if file_extension = ''tar'' then load_from_tar env lora_path st2
             else load_lora_weights env lora_path None st2)"

definition load_adapter ::
  "('img, 'g) env \<Rightarrow> string \<Rightarrow> 'img world \<Rightarrow> error option \<times> 'img world" where
  \<comment> \<open>lines 148 to 181 of \<open>predict\<close>: the branch taken when \<open>hf_lora is not None\<close>\<close>
  "load_adapter env hf_lora st =
     (if match_hf_path hf_lora then load_lora_weights env hf_lora None st
      else if match_hf_url hf_lora then
        (case search_hf_slug hf_lora of
           None \<Rightarrow> (Some AttributeError, st)
         | Some huggingface_slug \<Rightarrow>
             load_lora_weights env huggingface_slug (Some (last_segment hf_lora)) st)
      else if match_weight_url hf_lora \<or> match_replicate_url hf_lora then
        download_adapter env hf_lora st
      else (Some (Exception invalid_hf_lora), st))"

section \<open>The generation loop and \<open>predict\<close>\<close>

text \<open>The parameters of \<open>predict\<close>.\<close>

record request =
  prompt :: string
  aspect_ratio :: string
  num_outputs :: int
  num_inference_steps :: int
  guidance_scale :: real
  seed :: "int option"
  output_format :: string
  output_quality :: int
  hf_lora :: "string option"
  lora_scale :: real
  disable_safety_checker :: bool

definition run_safety_checker ::
  "('img, 'g) env \<Rightarrow> 'img \<Rightarrow> 'img world \<Rightarrow> bool \<times> 'img world" where
  \<comment> \<open>\<open>has_nsfw_concept[0]\<close> of the one image given\<close>
  "run_safety_checker env img st = (has_nsfw_concept env img, emit (SafetyCheck img) st)"

definition image_save ::
  "'img \<Rightarrow> string \<Rightarrow> (int \<times> bool) option \<Rightarrow> 'img world \<Rightarrow> 'img world" where
  "image_save img path kw st = (emit (Save img path kw) st)\<lparr>files := insert path (files st)\<rparr>"

definition out_path :: "nat \<Rightarrow> string \<Rightarrow> string" where
  \<comment> \<open>\<open>f"/tmp/out-{safe_images_count}.{output_format}"\<close>\<close>
  "out_path safe_images_count fmt = ''/tmp/out-'' @ digits safe_images_count @ ''.'' @ fmt"

text \<open>
  The body of \<open>predict\<close> from line 200 on is a loop over the lazy \<open>image_generator\<close>, so
  each pipeline call happens when the loop asks for the next image. The function below
  is that loop, on the indices still to come: it returns the error that ended it, if
  any, the paths yielded, the final \<open>safe_images_count\<close> and the state.
\<close>

fun image_loop ::
  "('img, 'g) env \<Rightarrow> request \<Rightarrow> pipe_args \<Rightarrow> nat list \<Rightarrow> 'g \<Rightarrow> nat \<Rightarrow> 'img world \<Rightarrow>
     error option \<times> string list \<times> nat \<times> 'img world" where
  "image_loop env req kw [] generator safe_images_count st = (None, [], safe_images_count, st)"
| "image_loop env req kw (i # rest) generator safe_images_count st =
     (let st1 = emit (PipeCall kw) st in
      case pipe env kw (adapters st) generator of
        Inl e \<Rightarrow> (Some e, [], safe_images_count, st1)
      | Inr (img, generator') \<Rightarrow>
          (case (if \<not> disable_safety_checker req then run_safety_checker env img st1
                 else (False, st1)) of
             (True, st2) \<Rightarrow> image_loop env req kw rest generator' safe_images_count st2
           | (False, st2) \<Rightarrow>
               (let output_path = out_path safe_images_count (output_format req);
                    st3 = (if output_format req \<noteq> ''png''
                           then image_save img output_path (Some (output_quality req, True)) st2
                           else image_save img output_path None st2)
                in case image_loop env req kw rest generator' (safe_images_count + 1) st3 of
                     (e, ys, n, st') \<Rightarrow> (e, output_path # ys, n, st'))))"

definition all_filtered :: string where
  "all_filtered =
     ''NSFW content detected in all images. Try running it again, or try a different prompt.''"

definition request_seed :: "('img, 'g) env \<Rightarrow> request \<Rightarrow> int" where
  \<comment> \<open>lines 131 and 132\<close>
  "request_seed env req =
     (case seed req of None \<Rightarrow> int_from_bytes_big (os_urandom env 2) | Some s \<Rightarrow> s)"

definition adapter_phase ::
  "('img, 'g) env \<Rightarrow> request \<Rightarrow> 'img world \<Rightarrow> error option \<times> 'img world" where
  \<comment> \<open>lines 145 to 184: the adapter is loaded, or without a reference whatever the pipeline
      has is unloaded\<close>
  "adapter_phase env req st =
     (case hf_lora req of
        Some r \<Rightarrow> load_adapter env r st
      | None \<Rightarrow> (None, unload_lora_weights st))"

definition pipe_kwargs :: "request \<Rightarrow> int \<Rightarrow> int \<Rightarrow> pipe_args" where
  \<comment> \<open>the arguments of the pipeline call of line 190, \<open>flux_kwargs\<close> among them:
      \<open>joint_attention_kwargs\<close> is \<open>{"scale": lora_scale}\<close> with an adapter reference and
      \<open>None\<close> without\<close>
  "pipe_kwargs req width height =
     \<lparr>p_prompt = prompt req, p_guidance_scale = guidance_scale req,
      p_num_inference_steps = num_inference_steps req,
      p_max_sequence_length = 512, p_width = width, p_height = height,
      p_joint_attention_kwargs =
        (case hf_lora req of Some r \<Rightarrow> Some (lora_scale req) | None \<Rightarrow> None)\<rparr>"

text \<open>
  \<open>predict\<close> is a generator function; the model is the run in which the caller consumes
  it to its end. The result is the error that ended the run, if any, the paths yielded
  before it, and the state. The bounds and choices that the parameters declare with
  \<open>Input\<close> are checked by the serving framework before \<open>predict\<close> is called; the model
  is the body of \<open>predict\<close>, for any values of its parameters.
\<close>

definition predict ::
  "('img, 'g) env \<Rightarrow> request \<Rightarrow> 'img world \<Rightarrow> error option \<times> string list \<times> 'img world" where
  "predict env req st =
     (let seed' = request_seed env req in
      case aspect_ratio_to_width_height (aspect_ratio req) of
        None \<Rightarrow> (Some TypeError, [], st)
      | Some (width, height) \<Rightarrow>
          (case adapter_phase env req st of
             (Some e, st1) \<Rightarrow> (Some e, [], st1)
           | (None, st1) \<Rightarrow>
               (let generator = manual_seed env seed';
                    st2 = emit (ManualSeed seed') st1
                in case image_loop env req (pipe_kwargs req width height)
                          [0..<nat (num_outputs req)] generator 0 st2 of
                     (Some e, ys, n, st3) \<Rightarrow> (Some e, ys, st3)
                   | (None, ys, n, st3) \<Rightarrow>
                       (let st4 = (if hf_lora req \<noteq> None then unload_lora_weights st3 else st3)
                        in if n = 0 then (Some (Exception all_filtered), ys, st4)
                           else (None, ys, st4)))))"

section \<open>What a run generates, and what it saves\<close>

text \<open>
  The images that \<open>n\<close> successive pipeline calls draw from a generator state, when none
  of the calls raises.
\<close>

primrec generated ::
  "('img, 'g) env \<Rightarrow> pipe_args \<Rightarrow> lora list \<Rightarrow> nat \<Rightarrow> 'g \<Rightarrow> 'img list option" where
  "generated env kw ads 0 g = Some []"
| "generated env kw ads (Suc n) g =
     (case pipe env kw ads g of
        Inl e \<Rightarrow> None
      | Inr (img, g') \<Rightarrow> map_option ((#) img) (generated env kw ads n g'))"

definition accepted :: "('img, 'g) env \<Rightarrow> request \<Rightarrow> 'img \<Rightarrow> bool" where
  \<comment> \<open>an image the loop writes: the filter is disabled, or the classifier does not flag it\<close>
  "accepted env req img \<longleftrightarrow> disable_safety_checker req \<or> \<not> has_nsfw_concept env img"

primrec saves :: "'img event list \<Rightarrow> (string \<times> (int \<times> bool) option) list" where
  \<comment> \<open>the path and keyword arguments of every \<open>image.save\<close> of a trace\<close>
  "saves [] = []"
| "saves (ev # evs) = (case ev of Save img p kw \<Rightarrow> (p, kw) # saves evs | _ \<Rightarrow> saves evs)"

primrec loads :: "'img event list \<Rightarrow> lora list" where
  \<comment> \<open>the arguments of every \<open>load_lora_weights\<close> of a trace\<close>
  "loads [] = []"
| "loads (ev # evs) = (case ev of LoadLora n w \<Rightarrow> (n, w) # loads evs | _ \<Rightarrow> loads evs)"

primrec seeds :: "'img event list \<Rightarrow> int list" where
  \<comment> \<open>the seed of every \<open>manual_seed\<close> of a trace\<close>
  "seeds [] = []"
| "seeds (ev # evs) = (case ev of ManualSeed x \<Rightarrow> x # seeds evs | _ \<Rightarrow> seeds evs)"

primrec subprocesses :: "'img event list \<Rightarrow> string list list" where
  \<comment> \<open>the command line of every subprocess of a trace\<close>
  "subprocesses [] = []"
| "subprocesses (ev # evs) = (case ev of Subprocess argv \<Rightarrow> argv # subprocesses evs | _ \<Rightarrow> subprocesses evs)"

text \<open>
  Two abbreviations for the statements about the loop: the keyword arguments with which
  an accepted image is saved (lines 209 to 212), and the state after the safety check of
  an image, which is made only when the filter is enabled (lines 202 and 203).
\<close>

definition save_kwargs :: "request \<Rightarrow> (int \<times> bool) option" where
  "save_kwargs req = (if output_format req \<noteq> ''png'' then Some (output_quality req, True) else None)"

definition checked :: "('img, 'g) env \<Rightarrow> request \<Rightarrow> 'img \<Rightarrow> 'img world \<Rightarrow> 'img world" where
  "checked env req img st = (if disable_safety_checker req then st else emit (SafetyCheck img) st)"

text \<open>What one attempt to load an adapter does to the state.\<close>

definition one_load :: "'img world \<Rightarrow> error option \<Rightarrow> 'img world \<Rightarrow> bool" where
  "one_load st e st' \<longleftrightarrow>
     saves (trace st') = saves (trace st) \<and> seeds (trace st') = seeds (trace st) \<and>
     subprocesses (trace st') = subprocesses (trace st) \<and>
     length (loads (trace st')) \<le> Suc (length (loads (trace st))) \<and>
     (case e of
        None \<Rightarrow> \<exists>a. adapters st' = adapters st @ [a] \<and> loads (trace st') = loads (trace st) @ [a]
      | Some err \<Rightarrow> adapters st' = adapters st)"

text \<open>
  The number that a decimal text denotes, to say what \<open>digits\<close> prints.
\<close>

definition digit_value :: "char \<Rightarrow> nat" where
  "digit_value c = length (takeWhile (\<lambda>d. d \<noteq> c) ''0123456789'')"

definition decimal :: "string \<Rightarrow> nat" where
  "decimal s = foldl (\<lambda>acc c. 10 * acc + digit_value c) 0 s"

text \<open>
  The image, path and keyword arguments of every \<open>image.save\<close> of a trace: the output
  images of a request, in order.
\<close>

primrec outputs :: "'img event list \<Rightarrow> ('img \<times> string \<times> (int \<times> bool) option) list" where
  "outputs [] = []"
| "outputs (ev # evs) = (case ev of Save img p kw \<Rightarrow> (img, p, kw) # outputs evs | _ \<Rightarrow> outputs evs)"

text \<open>
  Two runs that end alike: the same error or none, the same adapters attached, and no
  image saved by either.
\<close>

definition alike ::
  "error option \<times> 'img world \<Rightarrow> 'img world \<Rightarrow> error option \<times> 'img world \<Rightarrow> 'img world \<Rightarrow> bool" where
  "alike r1 st1 r2 st2 \<longleftrightarrow>
     fst r1 = fst r2 \<and> adapters (snd r1) = adapters (snd r2) \<and>
     outputs (trace (snd r1)) = outputs (trace st1) \<and>
     outputs (trace (snd r2)) = outputs (trace st2)"

section \<open>A concrete environment\<close>

text \<open>
  An environment in which images and generator states are numbers: the pipeline returns
  the generator state as the image and steps the state by one, and it raises on the
  states \<open>fails\<close> holds of; the classifier flags the images \<open>flagged\<close> holds of. Every
  download and every adapter load succeeds. The request has the defaults of \<open>predict\<close>.
\<close>

definition example_env :: "(nat \<Rightarrow> bool) \<Rightarrow> (nat \<Rightarrow> bool) \<Rightarrow> (nat, nat) env" where
  "example_env flagged fails =
     \<lparr>random_source = (\<lambda>i. 7), exit_status = (\<lambda>argv. 0), mkdtemp = ''/tmp/tmpdir'',
      tar_walk = (\<lambda>t d. Inr [(d, [''lora.safetensors''])]),
      lora_error = (\<lambda>n w. None), manual_seed = nat,
      pipe = (\<lambda>kw ads g. if fails g then Inl (LibraryError ''out of memory'') else Inr (g, Suc g)),
      has_nsfw_concept = flagged\<rparr>"

definition example_request :: request where
  "example_request =
     \<lparr>prompt = ''a cat'', aspect_ratio = ''1:1'', num_outputs = 1, num_inference_steps = 28,
      guidance_scale = 3.5, seed = None, output_format = ''webp'', output_quality = 80,
      hf_lora = None, lora_scale = 0.8, disable_safety_checker = False\<rparr>"

definition example_world :: "nat world" where
  "example_world = \<lparr>adapters = [], files = {}, trace = []\<rparr>"

text \<open>
  The same environment with a pipeline that depends on the adapters attached: the image
  is the generator state plus a thousand for every adapter.
\<close>

definition adapter_env :: "(nat \<Rightarrow> bool) \<Rightarrow> (nat, nat) env" where
  "adapter_env fails =
     (example_env (\<lambda>i. False) fails)
       \<lparr>pipe := \<lambda>kw ads g. if fails g then Inl (LibraryError ''out of memory'')
                           else Inr (g + 1000 * length ads, Suc g)\<rparr>"

section \<open>The trace of the primitive operations\<close>

lemma saves_append [simp]: "saves (xs @ ys) = saves xs @ saves ys"
  by (induction xs) (auto split: event.splits)
lemma loads_append [simp]: "loads (xs @ ys) = loads xs @ loads ys"
  by (induction xs) (auto split: event.splits)
lemma seeds_append [simp]: "seeds (xs @ ys) = seeds xs @ seeds ys"
  by (induction xs) (auto split: event.splits)
lemma subprocesses_append [simp]: "subprocesses (xs @ ys) = subprocesses xs @ subprocesses ys"
  by (induction xs) (auto split: event.splits)

lemma emit_simps [simp]:
  "trace (emit ev st) = trace st @ [ev]" "adapters (emit ev st) = adapters st" "files (emit ev st) = files st"
  by (simp_all add: emit_def)

lemma unload_simps [simp]:
  "trace (unload_lora_weights st) = trace st @ [UnloadLora]" "adapters (unload_lora_weights st) = []"
  "files (unload_lora_weights st) = files st"
  by (simp_all add: unload_lora_weights_def)

lemma image_save_simps [simp]:
  "trace (image_save img p kw st) = trace st @ [Save img p kw]" "adapters (image_save img p kw st) = adapters st"
  "files (image_save img p kw st) = insert p (files st)"
  by (simp_all add: image_save_def)

lemma checked_simps [simp]:
  "trace (checked env req img st) = trace st @ (if disable_safety_checker req then [] else [SafetyCheck img])"
  "adapters (checked env req img st) = adapters st"
  "files (checked env req img st) = files st"
  by (simp_all add: checked_def)

section \<open>The generation loop, one iteration at a time\<close>

lemma image_loop_Nil: "image_loop env req kw [] g cnt st = (None, [], cnt, st)"
  by simp

lemma image_loop_raise:
  "pipe env kw (adapters st) g = Inl e \<Longrightarrow>
   image_loop env req kw (i # rest) g cnt st = (Some e, [], cnt, emit (PipeCall kw) st)"
  by simp

lemma image_loop_flagged:
  "pipe env kw (adapters st) g = Inr (img, g') \<Longrightarrow> \<not> accepted env req img \<Longrightarrow>
   image_loop env req kw (i # rest) g cnt st =
     image_loop env req kw rest g' cnt (checked env req img (emit (PipeCall kw) st))"
  by (simp add: accepted_def run_safety_checker_def checked_def)

lemma image_loop_accepted:
  "pipe env kw (adapters st) g = Inr (img, g') \<Longrightarrow> accepted env req img \<Longrightarrow>
   image_loop env req kw (i # rest) g cnt st =
     (case image_loop env req kw rest g' (Suc cnt)
             (image_save img (out_path cnt (output_format req)) (save_kwargs req)
                (checked env req img (emit (PipeCall kw) st))) of
        (e, ys, n, st') \<Rightarrow> (e, out_path cnt (output_format req) # ys, n, st'))"
  by (auto simp add: accepted_def run_safety_checker_def checked_def save_kwargs_def Let_def split: prod.splits)

lemma image_loop_cases:
  obtains (raise) e where "pipe env kw (adapters st) g = Inl e"
  | (flagged) img g' where "pipe env kw (adapters st) g = Inr (img, g')" "\<not> accepted env req img"
  | (accepted) img g' where "pipe env kw (adapters st) g = Inr (img, g')" "accepted env req img"
  by (cases "pipe env kw (adapters st) g") auto

lemma image_loop_adapters:
  "image_loop env req kw is g cnt st = (e, ys, n, st') \<Longrightarrow> adapters st' = adapters st"
proof (induction "is" arbitrary: g cnt st e ys n st')
  case Nil
  then show ?case by simp
next
  case (Cons i rest)
  show ?case
  proof (cases rule: image_loop_cases [where env=env and kw=kw and st=st and g=g and req=req])
    case (raise e)
    with Cons.prems show ?thesis by (auto simp del: image_loop.simps simp add: image_loop_raise)
  next
    case (flagged img g')
    with Cons.prems Cons.IH show ?thesis
      by (fastforce simp del: image_loop.simps simp add: image_loop_flagged)
  next
    case (accepted img g')
    with Cons.prems Cons.IH show ?thesis
      by (fastforce simp del: image_loop.simps simp add: image_loop_accepted split: prod.splits)
  qed
qed


lemma image_loop_shape:
  "image_loop env req kw is g cnt st = (e, ys, n, st') \<Longrightarrow>
   ys = map (\<lambda>k. out_path k (output_format req)) [cnt..<cnt + length ys] \<and>
   n = cnt + length ys \<and> length ys \<le> length is"
proof (induction "is" arbitrary: g cnt st e ys n st')
  case Nil
  then show ?case by simp
next
  case (Cons i rest)
  show ?case
  proof (cases rule: image_loop_cases [where env=env and kw=kw and st=st and g=g and req=req])
    case (raise e)
    with Cons.prems show ?thesis by (auto simp del: image_loop.simps simp add: image_loop_raise)
  next
    case (flagged img g')
    with Cons.prems have "image_loop env req kw rest g' cnt (checked env req img (emit (PipeCall kw) st)) = (e, ys, n, st')"
      by (simp del: image_loop.simps add: image_loop_flagged)
    from Cons.IH [OF this] show ?thesis by simp
  next
    case (accepted img g')
    with Cons.prems obtain zs where
      run: "image_loop env req kw rest g' (Suc cnt)
             (image_save img (out_path cnt (output_format req)) (save_kwargs req)
                (checked env req img (emit (PipeCall kw) st))) = (e, zs, n, st')"
      and ys: "ys = out_path cnt (output_format req) # zs"
      by (auto simp del: image_loop.simps simp add: image_loop_accepted split: prod.splits)
    from Cons.IH [OF run] have zs: "zs = map (\<lambda>k. out_path k (output_format req)) [Suc cnt..<Suc cnt + length zs]"
      and n: "n = Suc cnt + length zs" and le: "length zs \<le> length rest" by simp_all
    have "[cnt..<cnt + length ys] = cnt # [Suc cnt..<cnt + length ys]"
      by (rule upt_conv_Cons) (simp add: ys)
    moreover have "cnt + length ys = Suc cnt + length zs"
      by (simp add: ys)
    ultimately have "[cnt..<cnt + length ys] = cnt # [Suc cnt..<Suc cnt + length zs]"
      by simp
    then have "map (\<lambda>k. out_path k (output_format req)) [cnt..<cnt + length ys] = ys"
      using zs ys by simp
    with ys n le show ?thesis by simp
  qed
qed

lemma image_loop_trace:
  "image_loop env req kw is g cnt st = (e, ys, n, st') \<Longrightarrow>
   saves (trace st') = saves (trace st) @ map (\<lambda>p. (p, save_kwargs req)) ys \<and>
   loads (trace st') = loads (trace st) \<and> seeds (trace st') = seeds (trace st) \<and>
   subprocesses (trace st') = subprocesses (trace st)"
proof (induction "is" arbitrary: g cnt st e ys n st')
  case Nil
  then show ?case by simp
next
  case (Cons i rest)
  show ?case
  proof (cases rule: image_loop_cases [where env=env and kw=kw and st=st and g=g and req=req])
    case (raise e)
    with Cons.prems show ?thesis by (auto simp del: image_loop.simps simp add: image_loop_raise)
  next
    case (flagged img g')
    with Cons.prems have "image_loop env req kw rest g' cnt (checked env req img (emit (PipeCall kw) st)) = (e, ys, n, st')"
      by (simp del: image_loop.simps add: image_loop_flagged)
    from Cons.IH [OF this] show ?thesis by simp
  next
    case (accepted img g')
    with Cons.prems obtain zs where
      run: "image_loop env req kw rest g' (Suc cnt)
             (image_save img (out_path cnt (output_format req)) (save_kwargs req)
                (checked env req img (emit (PipeCall kw) st))) = (e, zs, n, st')"
      and ys: "ys = out_path cnt (output_format req) # zs"
      by (auto simp del: image_loop.simps simp add: image_loop_accepted split: prod.splits)
    from Cons.IH [OF run] ys show ?thesis by simp
  qed
qed

lemma image_loop_generated:
  "generated env kw (adapters st) (length is) g = Some imgs \<Longrightarrow>
   image_loop env req kw is g cnt st = (e, ys, n, st') \<Longrightarrow>
   e = None \<and> length ys = length (filter (accepted env req) imgs)"
proof (induction "is" arbitrary: g cnt st e ys n st' imgs)
  case Nil
  then show ?case by simp
next
  case (Cons i rest)
  from Cons.prems(1) obtain img g' tl where
    p: "pipe env kw (adapters st) g = Inr (img, g')"
    and tl: "generated env kw (adapters st) (length rest) g' = Some tl"
    and imgs: "imgs = img # tl"
    by (auto split: sum.splits)
  show ?case
  proof (cases "accepted env req img")
    case False
    with p Cons.prems(2) have "image_loop env req kw rest g' cnt (checked env req img (emit (PipeCall kw) st)) = (e, ys, n, st')"
      by (simp del: image_loop.simps add: image_loop_flagged)
    from Cons.IH [OF _ this, of tl] tl imgs False show ?thesis by simp
  next
    case True
    with p Cons.prems(2) obtain zs where
      run: "image_loop env req kw rest g' (Suc cnt)
             (image_save img (out_path cnt (output_format req)) (save_kwargs req)
                (checked env req img (emit (PipeCall kw) st))) = (e, zs, n, st')"
      and ys: "ys = out_path cnt (output_format req) # zs"
      by (auto simp del: image_loop.simps simp add: image_loop_accepted split: prod.splits)
    from Cons.IH [OF _ run, of tl] tl imgs True ys show ?thesis by simp
  qed
qed

lemma image_loop_all_flagged:
  "generated env kw (adapters st) (length is) g = Some imgs \<Longrightarrow>
   \<not> disable_safety_checker req \<Longrightarrow> list_all (has_nsfw_concept env) imgs \<Longrightarrow>
   image_loop env req kw is g cnt st =
     (None, [], cnt, st\<lparr>trace := trace st @ concat (map (\<lambda>img. [PipeCall kw, SafetyCheck img]) imgs)\<rparr>)"
proof (induction "is" arbitrary: g st imgs)
  case Nil
  then show ?case by simp
next
  case (Cons i rest)
  from Cons.prems(1) obtain img g' tl where
    p: "pipe env kw (adapters st) g = Inr (img, g')"
    and tl: "generated env kw (adapters st) (length rest) g' = Some tl"
    and imgs: "imgs = img # tl"
    by (auto split: sum.splits)
  from Cons.prems imgs have na: "\<not> accepted env req img" and rest: "list_all (has_nsfw_concept env) tl"
    by (simp_all add: accepted_def)
  let ?st = "checked env req img (emit (PipeCall kw) st)"
  have "image_loop env req kw (i # rest) g cnt st = image_loop env req kw rest g' cnt ?st"
    using p na by (rule image_loop_flagged)
  also have "\<dots> = (None, [], cnt, ?st\<lparr>trace := trace ?st @ concat (map (\<lambda>img. [PipeCall kw, SafetyCheck img]) tl)\<rparr>)"
    using tl Cons.prems(2) rest by (intro Cons.IH) simp_all
  finally show ?case using imgs Cons.prems(2) by (simp add: checked_def emit_def)
qed

lemma image_loop_png_quality:
  "output_format req = ''png'' \<Longrightarrow>
   image_loop env (req\<lparr>output_quality := q\<rparr>) kw is g cnt st = image_loop env req kw is g cnt st"
  by (induction "is" arbitrary: g cnt st) (simp_all add: Let_def split: sum.splits prod.splits bool.splits)


section \<open>Downloads and adapter loads\<close>

lemma os_remove_simps [simp]:
  "trace (os_remove p st) = trace st @ [Remove p]" "adapters (os_remove p st) = adapters st"
  "files (os_remove p st) = files st - {p}"
  by (simp_all add: os_remove_def)

lemma load_lora_weights_trace:
  "load_lora_weights env name wn st = (e, st') \<Longrightarrow>
   trace st' = trace st @ [LoadLora name wn] \<and> files st' = files st \<and>
   adapters st' = (if e = None then adapters st @ [(name, wn)] else adapters st)"
  by (auto simp add: load_lora_weights_def Let_def split: option.splits)

lemma download_weights_trace:
  "download_weights env url dest f st = (e, st') \<Longrightarrow>
   trace st' = trace st @ [Subprocess (if f then [''pget'', url, dest] else [''pget'', ''-x'', url, dest])] \<and>
   adapters st' = adapters st \<and>
   e = (if exit_status env (if f then [''pget'', url, dest] else [''pget'', ''-x'', url, dest]) = 0
        then None
        else Some (CalledProcessError
                (exit_status env (if f then [''pget'', url, dest] else [''pget'', ''-x'', url, dest])))) \<and>
   files st' = (if e = None then insert dest (files st) else files st)"
  by (cases f) (auto simp add: download_weights_def check_call_def Let_def split: if_splits)

lemma load_lora_weights_one_load:
  "load_lora_weights env name wn st = (e, st') \<Longrightarrow> one_load st e st'"
  by (drule load_lora_weights_trace) (auto simp add: one_load_def split: option.splits)

lemma load_from_tar_one_load:
  assumes "load_from_tar env p st = (e, st')"
  shows "one_load (emit (ExtractTar p (mkdtemp env)) st) e st'"
proof (cases "tar_walk env p (mkdtemp env)")
  case (Inl err)
  with assms show ?thesis by (auto simp add: load_from_tar_def one_load_def)
next
  case (Inr walk)
  let ?fs = "concat (map (\<lambda>(dirpath, fs). map (path_join dirpath) (filter (endswith ''.safetensors'') fs)) walk)"
  show ?thesis
  proof (cases ?fs)
    case Nil
    with assms Inr show ?thesis by (auto simp add: load_from_tar_def one_load_def)
  next
    case (Cons f rest)
    with assms Inr have "load_lora_weights env f None (emit (ExtractTar p (mkdtemp env)) st) = (e, st')"
      by (simp add: load_from_tar_def)
    then show ?thesis by (rule load_lora_weights_one_load)
  qed
qed

lemma one_load_shift:
  "one_load st1 e st' \<Longrightarrow> adapters st1 = adapters st \<Longrightarrow> saves (trace st1) = saves (trace st) \<Longrightarrow>
   seeds (trace st1) = seeds (trace st) \<Longrightarrow> loads (trace st1) = loads (trace st) \<Longrightarrow>
   subprocesses (trace st1) = subprocesses (trace st) @ sp \<Longrightarrow>
   saves (trace st') = saves (trace st) \<and> seeds (trace st') = seeds (trace st) \<and>
   subprocesses (trace st') = subprocesses (trace st) @ sp \<and>
   length (loads (trace st')) \<le> Suc (length (loads (trace st))) \<and>
   (case e of
      None \<Rightarrow> \<exists>a. adapters st' = adapters st @ [a] \<and> loads (trace st') = loads (trace st) @ [a]
    | Some err \<Rightarrow> adapters st' = adapters st)"
  by (cases e) (simp_all add: one_load_def)


lemma download_adapter_trace:
  assumes "download_adapter env r st = (e, st')"
  shows "\<exists>p. saves (trace st') = saves (trace st) \<and> seeds (trace st') = seeds (trace st) \<and>
   subprocesses (trace st') = subprocesses (trace st) @ [[''pget'', r, p]] \<and>
   length (loads (trace st')) \<le> Suc (length (loads (trace st))) \<and>
   (case e of
      None \<Rightarrow> \<exists>a. adapters st' = adapters st @ [a] \<and> loads (trace st') = loads (trace st) @ [a]
    | Some err \<Rightarrow> adapters st' = adapters st)"
proof -
  define ext where "ext = (if endswith ''.tar'' r \<or> contains ''replicate.delivery'' r
             then ''tar'' else ''safetensors'')"
  define p where "p = ''/tmp/lora.'' @ ext"
  define st1 where "st1 = (if p \<in> files st then os_remove p st else st)"
  obtain e2 st2 where dl: "download_weights env r p True st1 = (e2, st2)"
    by (cases "download_weights env r p True st1")
  from download_weights_trace [OF dl]
  have t2: "trace st2 = trace st1 @ [Subprocess [''pget'', r, p]]" and a2: "adapters st2 = adapters st1"
    by simp_all
  have s1: "adapters st1 = adapters st" "saves (trace st1) = saves (trace st)"
    "seeds (trace st1) = seeds (trace st)" "loads (trace st1) = loads (trace st)"
    "subprocesses (trace st1) = subprocesses (trace st)"
    by (simp_all add: st1_def)
  have s2: "adapters st2 = adapters st" "saves (trace st2) = saves (trace st)"
    "seeds (trace st2) = seeds (trace st)" "loads (trace st2) = loads (trace st)"
    "subprocesses (trace st2) = subprocesses (trace st) @ [[''pget'', r, p]]"
    using s1 t2 a2 by simp_all
  have run: "download_adapter env r st =
      (case e2 of Some err \<Rightarrow> (Some err, st2)
       | None \<Rightarrow> if ext = ''tar'' then load_from_tar env p st2 else load_lora_weights env p None st2)"
    using dl by (auto simp add: download_adapter_def Let_def ext_def p_def st1_def
        split: option.splits)
  show ?thesis
  proof (cases e2)
    case (Some err)
    with run assms have "e = Some err" "st' = st2" by simp_all
    with s2 show ?thesis by auto
  next
    case None
    show ?thesis
    proof (cases "ext = ''tar''")
      case True
      with run None assms have "load_from_tar env p st2 = (e, st')" by simp
      from load_from_tar_one_load [OF this] have "one_load (emit (ExtractTar p (mkdtemp env)) st2) e st'" .
      from one_load_shift [OF this, of st "[[''pget'', r, p]]"] s2 show ?thesis by auto
    next
      case False
      with run None assms have "load_lora_weights env p None st2 = (e, st')" by simp
      from load_lora_weights_one_load [OF this] have "one_load st2 e st'" .
      from one_load_shift [OF this, of st "[[''pget'', r, p]]"] s2 show ?thesis by auto
    qed
  qed
qed

section \<open>The patterns of an adapter reference\<close>

lemma startswith_split: "startswith p s \<Longrightarrow> \<exists>t. s = p @ t"
  by (metis append_take_drop_id startswith_def)

lemma two_segments_http: "two_segments (''http://'' @ t) = None"
  by (simp add: two_segments_def slug_char_def)

lemma two_segments_https: "two_segments (''https://'' @ t) = None"
  by (simp add: two_segments_def slug_char_def)

lemma strip_scheme_Some: "strip_scheme s = Some r \<Longrightarrow> two_segments s = None"
proof -
  assume a: "strip_scheme s = Some r"
  then consider "startswith ''https://'' s" | "startswith ''http://'' s"
    by (auto simp add: strip_scheme_def split: if_splits)
  then show ?thesis
  proof cases
    case 1
    from startswith_split [OF this] obtain t where "s = ''https://'' @ t" by blast
    then show ?thesis by (simp only: two_segments_https)
  next
    case 2
    from startswith_split [OF this] obtain t where "s = ''http://'' @ t" by blast
    then show ?thesis by (simp only: two_segments_http)
  qed
qed

lemma match_hf_path_no_scheme: "match_hf_path r \<Longrightarrow> strip_scheme r = None"
  using strip_scheme_Some [of r] by (cases "strip_scheme r") (auto simp add: match_hf_path_def)

lemma match_hf_path_exclusive:
  "match_hf_path r \<Longrightarrow> \<not> match_hf_url r \<and> \<not> match_weight_url r \<and> \<not> match_replicate_url r"
  by (drule match_hf_path_no_scheme)
     (simp add: match_hf_url_def after_hf_host_def match_weight_url_def match_replicate_url_def)

lemma load_adapter_registry:
  "match_hf_path r \<Longrightarrow> load_adapter env r st = load_lora_weights env r None st"
  by (simp add: load_adapter_def)

lemma load_adapter_hf_url:
  "\<not> match_hf_path r \<Longrightarrow> match_hf_url r \<Longrightarrow>
   load_adapter env r st =
     (case search_hf_slug r of
        None \<Rightarrow> (Some AttributeError, st)
      | Some slug \<Rightarrow> load_lora_weights env slug (Some (last_segment r)) st)"
  by (simp add: load_adapter_def)

lemma load_adapter_download:
  "\<not> match_hf_path r \<Longrightarrow> \<not> match_hf_url r \<Longrightarrow> match_weight_url r \<or> match_replicate_url r \<Longrightarrow>
   load_adapter env r st = download_adapter env r st"
  by (simp add: load_adapter_def)

lemma load_adapter_invalid:
  "\<not> match_hf_path r \<Longrightarrow> \<not> match_hf_url r \<Longrightarrow> \<not> match_weight_url r \<Longrightarrow>
   \<not> match_replicate_url r \<Longrightarrow> load_adapter env r st = (Some (Exception invalid_hf_lora), st)"
  by (simp add: load_adapter_def)

lemma load_adapter_trace:
  assumes "load_adapter env r st = (e, st')"
  shows "saves (trace st') = saves (trace st) \<and> seeds (trace st') = seeds (trace st) \<and>
         length (loads (trace st')) \<le> Suc (length (loads (trace st))) \<and>
         (case e of
            None \<Rightarrow> \<exists>a. adapters st' = adapters st @ [a] \<and> loads (trace st') = loads (trace st) @ [a]
          | Some err \<Rightarrow> adapters st' = adapters st)"
proof -
  consider (path) "match_hf_path r"
    | (url) "\<not> match_hf_path r" "match_hf_url r"
    | (download) "\<not> match_hf_path r" "\<not> match_hf_url r" "match_weight_url r \<or> match_replicate_url r"
    | (invalid) "\<not> match_hf_path r" "\<not> match_hf_url r" "\<not> match_weight_url r" "\<not> match_replicate_url r"
    by blast
  then show ?thesis
  proof cases
    case path
    with assms have "load_lora_weights env r None st = (e, st')" by (simp add: load_adapter_registry)
    from load_lora_weights_one_load [OF this] show ?thesis by (simp add: one_load_def)
  next
    case url
    show ?thesis
    proof (cases "search_hf_slug r")
      case None
      with url assms show ?thesis by (auto simp add: load_adapter_hf_url)
    next
      case (Some slug)
      with url assms have "load_lora_weights env slug (Some (last_segment r)) st = (e, st')"
        by (simp add: load_adapter_hf_url)
      from load_lora_weights_one_load [OF this] show ?thesis by (simp add: one_load_def)
    qed
  next
    case download
    with assms have "download_adapter env r st = (e, st')" by (simp add: load_adapter_download)
    from download_adapter_trace [OF this] show ?thesis by blast
  next
    case invalid
    with assms show ?thesis by (auto simp add: load_adapter_invalid)
  qed
qed

lemma adapter_phase_trace:
  assumes "adapter_phase env req st = (e, st')"
  shows "saves (trace st') = saves (trace st) \<and> seeds (trace st') = seeds (trace st) \<and>
         length (loads (trace st')) \<le> Suc (length (loads (trace st))) \<and>
         (case hf_lora req of
            None \<Rightarrow> e = None \<and> adapters st' = [] \<and> loads (trace st') = loads (trace st)
          | Some r \<Rightarrow>
             (case e of
                None \<Rightarrow> \<exists>a. adapters st' = adapters st @ [a] \<and> loads (trace st') = loads (trace st) @ [a]
              | Some err \<Rightarrow> adapters st' = adapters st))"
proof (cases "hf_lora req")
  case None
  with assms show ?thesis by (auto simp add: adapter_phase_def)
next
  case (Some r)
  with assms have "load_adapter env r st = (e, st')" by (simp add: adapter_phase_def)
  from load_adapter_trace [OF this] Some show ?thesis by simp
qed

section \<open>The three ways a run of \<open>predict\<close> can go\<close>

lemma predict_no_ratio:
  "aspect_ratio_to_width_height (aspect_ratio req) = None \<Longrightarrow>
   predict env req st = (Some TypeError, [], st)"
  by (simp add: predict_def)

lemma predict_no_adapter:
  "aspect_ratio_to_width_height (aspect_ratio req) = Some (w, h) \<Longrightarrow>
   adapter_phase env req st = (Some err, st1) \<Longrightarrow>
   predict env req st = (Some err, [], st1)"
  by (simp add: predict_def)

lemma predict_loop:
  "aspect_ratio_to_width_height (aspect_ratio req) = Some (w, h) \<Longrightarrow>
   adapter_phase env req st = (None, st1) \<Longrightarrow>
   image_loop env req (pipe_kwargs req w h) [0..<nat (num_outputs req)]
     (manual_seed env (request_seed env req)) 0 (emit (ManualSeed (request_seed env req)) st1) =
     (e2, zs, n, st3) \<Longrightarrow>
   predict env req st =
     (case e2 of
        Some err \<Rightarrow> (Some err, zs, st3)
      | None \<Rightarrow>
          (if n = 0 then Some (Exception all_filtered) else None, zs,
           if hf_lora req \<noteq> None then unload_lora_weights st3 else st3))"
  by (simp add: predict_def Let_def split: option.splits)

lemma predict_cases:
  obtains (no_ratio) "aspect_ratio_to_width_height (aspect_ratio req) = None"
  | (no_adapter) w h err st1 where
      "aspect_ratio_to_width_height (aspect_ratio req) = Some (w, h)"
      "adapter_phase env req st = (Some err, st1)"
  | (loop) w h st1 e2 zs n st3 where
      "aspect_ratio_to_width_height (aspect_ratio req) = Some (w, h)"
      "adapter_phase env req st = (None, st1)"
      "image_loop env req (pipe_kwargs req w h) [0..<nat (num_outputs req)]
         (manual_seed env (request_seed env req)) 0 (emit (ManualSeed (request_seed env req)) st1) =
         (e2, zs, n, st3)"
proof (cases "aspect_ratio_to_width_height (aspect_ratio req)")
  case None
  then show ?thesis by (rule no_ratio)
next
  case (Some wh)
  obtain w h where wh: "wh = (w, h)" by (cases wh)
  obtain e1 st1 where ph: "adapter_phase env req st = (e1, st1)"
    by (cases "adapter_phase env req st")
  show ?thesis
  proof (cases e1)
    case None
    obtain e2 zs n st3 where "image_loop env req (pipe_kwargs req w h) [0..<nat (num_outputs req)]
         (manual_seed env (request_seed env req)) 0 (emit (ManualSeed (request_seed env req)) st1) =
         (e2, zs, n, st3)"
      using prod_cases4 by blast
    with Some wh ph None show ?thesis by (intro loop) simp_all
  next
    case (Some err)
    with \<open>aspect_ratio_to_width_height (aspect_ratio req) = Some wh\<close> wh ph show ?thesis
      by (intro no_adapter) simp_all
  qed
qed

section \<open>Two random bytes\<close>

lemma os_urandom_2: "os_urandom env 2 = [random_source env 0, random_source env 1]"
  by (simp add: os_urandom_def numeral_2_eq_2 upt_rec)

lemma int_from_two_bytes: "0 \<le> int_from_bytes_big [a, b] \<and> int_from_bytes_big [a, b] \<le> 65535"
proof -
  have "0 \<le> uint a" "uint a < 256" "0 \<le> uint b" "uint b < 256"
    using uint_lt2p [of a] uint_lt2p [of b] by simp_all
  then show ?thesis by (simp add: int_from_bytes_big_def)
qed

section \<open>A run of the concrete environment\<close>

lemmas example_defs = example_env_def example_request_def example_world_def

lemma example_run:
  "predict (example_env (\<lambda>i. False) (\<lambda>g. False)) example_request example_world =
     (None, [''/tmp/out-0.webp''],
      \<lparr>adapters = [], files = {''/tmp/out-0.webp''},
       trace = [UnloadLora, ManualSeed 1799,
                PipeCall (pipe_kwargs example_request 1024 1024), SafetyCheck 1799,
                Save 1799 ''/tmp/out-0.webp'' (Some (80, True))]\<rparr>)"
  by (simp add: predict_def example_defs request_seed_def os_urandom_2 int_from_bytes_big_def
      aspect_ratio_to_width_height_def aspect_ratios_def adapter_phase_def unload_lora_weights_def
      emit_def pipe_kwargs_def run_safety_checker_def image_save_def out_path_def digits.simps Let_def)



lemmas match_defs = match_hf_path_def two_segments_def slug_char_def match_hf_url_def after_hf_host_def
  strip_scheme_def startswith_def match_weight_url_def match_replicate_url_def literal_def any_then_def
  newline_def endswith_def dollar_def

lemmas run_defs = predict_def request_seed_def os_urandom_2 int_from_bytes_big_def
  aspect_ratio_to_width_height_def aspect_ratios_def adapter_phase_def unload_lora_weights_def
  emit_def pipe_kwargs_def run_safety_checker_def image_save_def out_path_def digits.simps Let_def
  load_adapter_def load_lora_weights_def accepted_def

section \<open>Aspect ratios\<close>

text \<open>
  Claim C1. Each of the nine supported aspect-ratio strings resolves to the pair of the
  fixed table, and a request with any other string fails (unpacking \<open>None\<close> raises a
  \<open>TypeError\<close>) before any adapter is loaded and before any image is generated: the
  process state is left as it was.
\<close>

theorem aspect_ratio_table:
  "aspect_ratio_to_width_height ''1:1'' = Some (1024, 1024) \<and>
   aspect_ratio_to_width_height ''16:9'' = Some (1344, 768) \<and>
   aspect_ratio_to_width_height ''21:9'' = Some (1536, 640) \<and>
   aspect_ratio_to_width_height ''3:2'' = Some (1216, 832) \<and>
   aspect_ratio_to_width_height ''2:3'' = Some (832, 1216) \<and>
   aspect_ratio_to_width_height ''4:5'' = Some (896, 1088) \<and>
   aspect_ratio_to_width_height ''5:4'' = Some (1088, 896) \<and>
   aspect_ratio_to_width_height ''9:16'' = Some (768, 1344) \<and>
   aspect_ratio_to_width_height ''9:21'' = Some (640, 1536) \<and>
   (aspect_ratio req \<notin>
      {''1:1'', ''16:9'', ''21:9'', ''3:2'', ''2:3'', ''4:5'', ''5:4'', ''9:16'', ''9:21''} \<longrightarrow>
      aspect_ratio_to_width_height (aspect_ratio req) = None \<and>
      predict env req st = (Some TypeError, [], st))"
  by (simp add: aspect_ratio_to_width_height_def aspect_ratios_def predict_def)

theorem aspect_ratio_table_witness:
  "aspect_ratio (example_request\<lparr>aspect_ratio := ''7:9''\<rparr>) \<notin>
      {''1:1'', ''16:9'', ''21:9'', ''3:2'', ''2:3'', ''4:5'', ''5:4'', ''9:16'', ''9:21''} \<and>
   aspect_ratio_to_width_height ''7:9'' = None \<and>
   predict (example_env (\<lambda>i. False) (\<lambda>g. False)) (example_request\<lparr>aspect_ratio := ''7:9''\<rparr>)
     example_world = (Some TypeError, [], example_world)"
  using aspect_ratio_table [of "example_request\<lparr>aspect_ratio := ''7:9''\<rparr>"
      "example_env (\<lambda>i. False) (\<lambda>g. False)" example_world]
  by (simp add: example_request_def)

section \<open>The seed\<close>

lemma predict_seeds:
  assumes "predict env req st = (e, ys, st')"
  shows "seeds (trace st') = seeds (trace st) \<or>
         seeds (trace st') = seeds (trace st) @ [request_seed env req]"
proof (cases rule: predict_cases [where req=req and env=env and st=st])
  case no_ratio
  with assms show ?thesis by (simp add: predict_no_ratio)
next
  case (no_adapter w h err st1)
  from adapter_phase_trace [OF no_adapter(2)] assms no_adapter show ?thesis
    by (simp add: predict_no_adapter)
next
  case (loop w h st1 e2 zs n st3)
  from adapter_phase_trace [OF loop(2)] image_loop_trace [OF loop(3)]
  have "seeds (trace st3) = seeds (trace st) @ [request_seed env req]" by simp
  with assms show ?thesis
    by (auto simp add: predict_loop [OF loop] split: option.splits if_splits)
qed

text \<open>
  Claim C9. Without an explicit seed the seed of the request is the big-endian number of
  exactly two bytes of the process random source, so it lies between 0 and 65535; an
  explicit seed is used unchanged. The generator is seeded at most once in a request, and
  with that seed.
\<close>

theorem fallback_seed_range:
  "(seed req = None \<longrightarrow>
      request_seed env req = int_from_bytes_big [random_source env 0, random_source env 1] \<and>
      0 \<le> request_seed env req \<and> request_seed env req \<le> 65535) \<and>
   (seed req = Some s \<longrightarrow> request_seed env req = s) \<and>
   (predict env req st = (e, ys, st') \<longrightarrow>
      seeds (trace st') = seeds (trace st) \<or>
      seeds (trace st') = seeds (trace st) @ [request_seed env req])"
  using int_from_two_bytes [of "random_source env 0" "random_source env 1"]
    predict_seeds [of env req st e ys st']
  by (auto simp add: request_seed_def os_urandom_2)

theorem fallback_seed_range_witness:
  "seed example_request = None \<and>
   request_seed (example_env (\<lambda>i. False) (\<lambda>g. False)) example_request = 1799 \<and>
   seed (example_request\<lparr>seed := Some 42\<rparr>) = Some 42 \<and>
   request_seed (example_env (\<lambda>i. False) (\<lambda>g. False)) (example_request\<lparr>seed := Some 42\<rparr>) = 42 \<and>
   seeds (trace (snd (snd (predict (example_env (\<lambda>i. False) (\<lambda>g. False)) example_request
      example_world)))) = [1799]"
  using fallback_seed_range [of example_request "example_env (\<lambda>i. False) (\<lambda>g. False)" 0
      example_world None "[''/tmp/out-0.webp'']"]
    fallback_seed_range [of "example_request\<lparr>seed := Some 42\<rparr>"
      "example_env (\<lambda>i. False) (\<lambda>g. False)" 42 example_world None "[]" example_world]
    example_run
  by (simp add: example_defs int_from_bytes_big_def)

section \<open>The adapter reference\<close>

lemma load_lora_weights_subprocesses:
  "subprocesses (trace (snd (load_lora_weights env name wn st))) = subprocesses (trace st)"
  by (cases "load_lora_weights env name wn st") (auto dest: load_lora_weights_trace)

lemma predict_invalid_hf_lora:
  assumes "hf_lora req = Some r" "aspect_ratio_to_width_height (aspect_ratio req) \<noteq> None"
    and "\<not> match_hf_path r" "\<not> match_hf_url r" "\<not> match_weight_url r" "\<not> match_replicate_url r"
  shows "predict env req st = (Some (Exception invalid_hf_lora), [], st)"
  using assms by (auto simp add: predict_def adapter_phase_def load_adapter_invalid)

text \<open>
  Claim C2, as the code has it. The three rules are tried in order and the first that
  matches decides. A reference of the form \<open>owner/name\<close> matches neither URL rule; it is
  loaded by its slug and no download is run. A URL under the model-hosting host
  (\<open>http\<close> or \<open>https\<close>) that is no slug is loaded by the slug and the file name taken
  from it, with no download either. A weight-file or archive URL matched by no earlier
  rule is fetched with one run of the download tool. A reference that matches no rule
  fails with \<open>Exception\<close> and a fixed message, which names the parameter \<open>hf_lora\<close> and
  not the reference; the state is left as it was, so nothing was downloaded or loaded,
  and \<open>predict\<close> ends there without generating.
\<close>

theorem adapter_rules:
  "(match_hf_path r \<longrightarrow>
      \<not> match_hf_url r \<and> \<not> match_weight_url r \<and> \<not> match_replicate_url r \<and>
      load_adapter env r st = load_lora_weights env r None st \<and>
      subprocesses (trace (snd (load_adapter env r st))) = subprocesses (trace st)) \<and>
   (\<not> match_hf_path r \<and> match_hf_url r \<longrightarrow>
      load_adapter env r st =
        (case search_hf_slug r of
           None \<Rightarrow> (Some AttributeError, st)
         | Some slug \<Rightarrow> load_lora_weights env slug (Some (last_segment r)) st) \<and>
      subprocesses (trace (snd (load_adapter env r st))) = subprocesses (trace st)) \<and>
   (\<not> match_hf_path r \<and> \<not> match_hf_url r \<and> (match_weight_url r \<or> match_replicate_url r) \<longrightarrow>
      load_adapter env r st = download_adapter env r st \<and>
      (\<exists>p. subprocesses (trace (snd (load_adapter env r st))) =
             subprocesses (trace st) @ [[''pget'', r, p]])) \<and>
   (\<not> match_hf_path r \<and> \<not> match_hf_url r \<and> \<not> match_weight_url r \<and> \<not> match_replicate_url r \<longrightarrow>
      load_adapter env r st = (Some (Exception invalid_hf_lora), st) \<and>
      (hf_lora req = Some r \<and> aspect_ratio_to_width_height (aspect_ratio req) \<noteq> None \<longrightarrow>
         predict env req st = (Some (Exception invalid_hf_lora), [], st)))"
proof (intro conjI impI)
  assume "match_hf_path r"
  then show "\<not> match_hf_url r" "\<not> match_weight_url r" "\<not> match_replicate_url r"
    using match_hf_path_exclusive by blast+
  from \<open>match_hf_path r\<close> show reg: "load_adapter env r st = load_lora_weights env r None st"
    by (rule load_adapter_registry)
  show "subprocesses (trace (snd (load_adapter env r st))) = subprocesses (trace st)"
    by (simp only: reg load_lora_weights_subprocesses)
next
  assume a: "\<not> match_hf_path r \<and> match_hf_url r"
  then show url: "load_adapter env r st =
        (case search_hf_slug r of
           None \<Rightarrow> (Some AttributeError, st)
         | Some slug \<Rightarrow> load_lora_weights env slug (Some (last_segment r)) st)"
    by (simp add: load_adapter_hf_url)
  show "subprocesses (trace (snd (load_adapter env r st))) = subprocesses (trace st)"
    by (simp add: url load_lora_weights_subprocesses split: option.splits)
next
  assume a: "\<not> match_hf_path r \<and> \<not> match_hf_url r \<and> (match_weight_url r \<or> match_replicate_url r)"
  then show dl: "load_adapter env r st = download_adapter env r st"
    by (simp add: load_adapter_download)
  obtain e st' where run: "download_adapter env r st = (e, st')"
    by (cases "download_adapter env r st")
  from download_adapter_trace [OF run] dl run
  show "\<exists>p. subprocesses (trace (snd (load_adapter env r st))) =
             subprocesses (trace st) @ [[''pget'', r, p]]"
    by auto
next
  assume a: "\<not> match_hf_path r \<and> \<not> match_hf_url r \<and> \<not> match_weight_url r \<and> \<not> match_replicate_url r"
  then show "load_adapter env r st = (Some (Exception invalid_hf_lora), st)"
    by (simp add: load_adapter_invalid)
  assume "hf_lora req = Some r \<and> aspect_ratio_to_width_height (aspect_ratio req) \<noteq> None"
  with a show "predict env req st = (Some (Exception invalid_hf_lora), [], st)"
    by (simp add: predict_invalid_hf_lora)
qed

theorem adapter_rules_witness:
  "match_hf_path ''alvdansen/frosting_lane_flux'' \<and>
   subprocesses (trace (snd (load_adapter (example_env (\<lambda>i. False) (\<lambda>g. False))
      ''alvdansen/frosting_lane_flux'' example_world))) = [] \<and>
   \<not> match_hf_path ''https://huggingface.co/a/b/c.safetensors'' \<and>
   match_hf_url ''https://huggingface.co/a/b/c.safetensors'' \<and>
   load_adapter (example_env (\<lambda>i. False) (\<lambda>g. False)) ''https://huggingface.co/a/b/c.safetensors''
      example_world =
     load_lora_weights (example_env (\<lambda>i. False) (\<lambda>g. False)) ''a/b'' (Some ''c.safetensors'')
       example_world \<and>
   \<not> match_hf_url ''https://example.com/lora.tar'' \<and> match_weight_url ''https://example.com/lora.tar'' \<and>
   subprocesses (trace (snd (load_adapter (example_env (\<lambda>i. False) (\<lambda>g. False))
      ''https://example.com/lora.tar'' example_world))) =
     [[''pget'', ''https://example.com/lora.tar'', ''/tmp/lora.tar'']] \<and>
   \<not> match_weight_url ''no slash'' \<and> \<not> match_replicate_url ''no slash'' \<and>
   predict (example_env (\<lambda>i. False) (\<lambda>g. False)) (example_request\<lparr>hf_lora := Some ''no slash''\<rparr>)
      example_world = (Some (Exception invalid_hf_lora), [], example_world)"
proof -
  let ?E = "example_env (\<lambda>i. False) (\<lambda>g. False)"
  let ?u = "''https://huggingface.co/a/b/c.safetensors''"
  let ?d = "''https://example.com/lora.tar''"
  let ?req = "example_request\<lparr>hf_lora := Some ''no slash''\<rparr>"
  have 1: "match_hf_path ''alvdansen/frosting_lane_flux''" by (simp add: match_defs)
  have 2: "\<not> match_hf_path ?u \<and> match_hf_url ?u" by (simp add: match_defs)
  have s2: "search_hf_slug ?u = Some ''a/b''" "last_segment ?u = ''c.safetensors''"
    by (simp_all add: search_hf_slug_def last_segment_def match_defs)
  have 3: "\<not> match_hf_path ?d \<and> \<not> match_hf_url ?d \<and> (match_weight_url ?d \<or> match_replicate_url ?d)"
    by (simp add: match_defs)
  have 4: "\<not> match_hf_path ''no slash'' \<and> \<not> match_hf_url ''no slash'' \<and>
           \<not> match_weight_url ''no slash'' \<and> \<not> match_replicate_url ''no slash''"
    by (simp add: match_defs)
  have 5: "hf_lora ?req = Some ''no slash'' \<and> aspect_ratio_to_width_height (aspect_ratio ?req) \<noteq> None"
    by (simp add: example_request_def aspect_ratio_to_width_height_def aspect_ratios_def)
  have w: "subprocesses (trace example_world) = []" by (simp add: example_world_def)
  from adapter_rules [of "''alvdansen/frosting_lane_flux''" ?E example_world example_request] 1
  have "subprocesses (trace (snd (load_adapter ?E ''alvdansen/frosting_lane_flux'' example_world))) =
      subprocesses (trace example_world)"
    by blast
  then have a: "subprocesses (trace (snd (load_adapter ?E ''alvdansen/frosting_lane_flux'' example_world))) = []"
    by (simp only: w)
  from adapter_rules [of ?u ?E example_world example_request] 2
  have "load_adapter ?E ?u example_world =
      (case search_hf_slug ?u of
         None \<Rightarrow> (Some AttributeError, example_world)
       | Some slug \<Rightarrow> load_lora_weights ?E slug (Some (last_segment ?u)) example_world)"
    by blast
  then have b: "load_adapter ?E ?u example_world =
      load_lora_weights ?E ''a/b'' (Some ''c.safetensors'') example_world"
    by (simp only: s2 option.case)
  from adapter_rules [of ?d ?E example_world example_request] 3
  have dl: "load_adapter ?E ?d example_world = download_adapter ?E ?d example_world"
    by blast
  have c: "subprocesses (trace (snd (load_adapter ?E ?d example_world))) =
      [[''pget'', ?d, ''/tmp/lora.tar'']]"
    unfolding dl
    by (simp add: download_adapter_def load_from_tar_def endswith_def example_defs
        download_weights_def check_call_def load_lora_weights_def emit_def path_join_def
        startswith_def Let_def)
  from adapter_rules [of "''no slash''" ?E example_world ?req] 4 5
  have d: "predict ?E ?req example_world = (Some (Exception invalid_hf_lora), [], example_world)"
    by blast
  from 3 have m3: "\<not> match_hf_url ?d \<and> match_weight_url ?d" by (simp add: match_defs)
  from 1 2 m3 4 a b c d show ?thesis by (simp only: simp_thms)
qed


text \<open>
  Claim C2 as the specification words it fails twice. The message of the error for an
  invalid reference does not contain the reference: it is the same for every one of
  them. And the patterns of the second and third rule are not mutually exclusive: a
  weight file under the model-hosting host matches both, and the order decides.
\<close>

theorem adapter_wording_counterexample:
  "fst (load_adapter (example_env (\<lambda>i. False) (\<lambda>g. False)) ''no slash'' example_world) =
     Some (Exception invalid_hf_lora) \<and>
   \<not> contains ''no slash'' invalid_hf_lora \<and>
   match_hf_url ''https://huggingface.co/a/b/c.safetensors'' \<and>
   match_weight_url ''https://huggingface.co/a/b/c.safetensors''"
proof -
  have "\<not> match_hf_path ''no slash'' \<and> \<not> match_hf_url ''no slash'' \<and>
           \<not> match_weight_url ''no slash'' \<and> \<not> match_replicate_url ''no slash''"
    by (simp add: match_defs)
  then have "load_adapter (example_env (\<lambda>i. False) (\<lambda>g. False)) ''no slash'' example_world =
     (Some (Exception invalid_hf_lora), example_world)"
    by (simp add: load_adapter_invalid)
  moreover have "\<not> contains ''no slash'' invalid_hf_lora"
    by (simp add: invalid_hf_lora_def startswith_def)
  moreover have "match_hf_url ''https://huggingface.co/a/b/c.safetensors'' \<and>
   match_weight_url ''https://huggingface.co/a/b/c.safetensors''"
    by (simp add: match_defs)
  ultimately show ?thesis by simp
qed



section \<open>The safety filter and the output files\<close>

lemma generated_length: "generated env kw ads n g = Some imgs \<Longrightarrow> length imgs = n"
  by (induction n arbitrary: g imgs) (auto split: sum.splits)

lemma predict_all_flagged:
  assumes ar: "aspect_ratio_to_width_height (aspect_ratio req) = Some (w, h)"
    and ph: "adapter_phase env req st = (None, st1)"
    and gen: "generated env (pipe_kwargs req w h) (adapters st1) (nat (num_outputs req))
                (manual_seed env (request_seed env req)) = Some imgs"
    and on: "\<not> disable_safety_checker req"
    and flagged: "list_all (has_nsfw_concept env) imgs"
  shows "predict env req st =
     (Some (Exception all_filtered), [],
      (if hf_lora req \<noteq> None then unload_lora_weights else id)
        (st1\<lparr>trace := trace st1 @ ManualSeed (request_seed env req) #
            concat (map (\<lambda>img. [PipeCall (pipe_kwargs req w h), SafetyCheck img]) imgs)\<rparr>))"
proof -
  let ?st2 = "emit (ManualSeed (request_seed env req)) st1"
  have "generated env (pipe_kwargs req w h) (adapters ?st2) (length [0..<nat (num_outputs req)])
                (manual_seed env (request_seed env req)) = Some imgs"
    using gen by simp
  from image_loop_all_flagged [OF this on flagged, of 0]
  have "image_loop env req (pipe_kwargs req w h) [0..<nat (num_outputs req)]
     (manual_seed env (request_seed env req)) 0 ?st2 =
     (None, [], 0, ?st2\<lparr>trace := trace ?st2 @
        concat (map (\<lambda>img. [PipeCall (pipe_kwargs req w h), SafetyCheck img]) imgs)\<rparr>)" .
  from predict_loop [OF ar ph this] show ?thesis by (simp add: emit_def)
qed

text \<open>
  Claim C3. When the safety filter is enabled and every one of the images that the
  request generates is flagged, the request fails with the all-outputs-filtered error,
  it yields no path, it saves no image and it leaves the files on local storage as they
  were after the adapter was loaded. The hypotheses say that the request got as far as
  the loop (a supported aspect ratio, the adapter resolved) and that none of its
  pipeline calls raised.
\<close>

theorem all_outputs_filtered:
  assumes "aspect_ratio_to_width_height (aspect_ratio req) = Some (w, h)"
    and "adapter_phase env req st = (None, st1)"
    and "generated env (pipe_kwargs req w h) (adapters st1) (nat (num_outputs req))
                (manual_seed env (request_seed env req)) = Some imgs"
    and "\<not> disable_safety_checker req"
    and "list_all (has_nsfw_concept env) imgs"
  shows "\<exists>st'. predict env req st = (Some (Exception all_filtered), [], st') \<and>
           saves (trace st') = saves (trace st) \<and> files st' = files st1 \<and>
           length imgs = nat (num_outputs req)"
proof -
  from adapter_phase_trace [OF assms(2)] have "saves (trace st1) = saves (trace st)" by simp
  moreover have "saves (concat (map (\<lambda>img. [PipeCall (pipe_kwargs req w h), SafetyCheck img]) imgs)) = []"
    by (induction imgs) simp_all
  ultimately show ?thesis
    using predict_all_flagged [OF assms] generated_length [OF assms(3)]
    by (simp add: unload_lora_weights_def emit_def)
qed

theorem all_outputs_filtered_witness:
  "aspect_ratio_to_width_height (aspect_ratio (example_request\<lparr>num_outputs := 2\<rparr>)) = Some (1024, 1024) \<and>
   adapter_phase (example_env (\<lambda>i. True) (\<lambda>g. False)) (example_request\<lparr>num_outputs := 2\<rparr>)
     example_world = (None, unload_lora_weights example_world) \<and>
   generated (example_env (\<lambda>i. True) (\<lambda>g. False))
     (pipe_kwargs (example_request\<lparr>num_outputs := 2\<rparr>) 1024 1024) [] 2 1799 = Some [1799, 1800] \<and>
   \<not> disable_safety_checker (example_request\<lparr>num_outputs := 2\<rparr>) \<and>
   list_all (has_nsfw_concept (example_env (\<lambda>i. True) (\<lambda>g. False))) [1799, 1800] \<and>
   (\<exists>st'. predict (example_env (\<lambda>i. True) (\<lambda>g. False)) (example_request\<lparr>num_outputs := 2\<rparr>)
            example_world = (Some (Exception all_filtered), [], st') \<and>
          saves (trace st') = [] \<and> files st' = {})"
proof -
  let ?E = "example_env (\<lambda>i. True) (\<lambda>g. False)"
  let ?R = "example_request\<lparr>num_outputs := 2\<rparr>"
  have h1: "aspect_ratio_to_width_height (aspect_ratio ?R) = Some (1024, 1024)"
    by (simp add: run_defs example_defs)
  have h2: "adapter_phase ?E ?R example_world = (None, unload_lora_weights example_world)"
    by (simp add: adapter_phase_def example_defs)
  have g: "generated ?E (pipe_kwargs ?R 1024 1024) [] 2 1799 = Some [1799, 1800]"
    by (simp add: example_defs numeral_2_eq_2)
  have "manual_seed ?E (request_seed ?E ?R) = 1799" "nat (num_outputs ?R) = 2"
    "adapters (unload_lora_weights example_world) = []"
    by (simp_all add: run_defs example_defs)
  with g have h3: "generated ?E (pipe_kwargs ?R 1024 1024) (adapters (unload_lora_weights example_world))
      (nat (num_outputs ?R)) (manual_seed ?E (request_seed ?E ?R)) = Some [1799, 1800]"
    by (simp only:)
  have h4: "\<not> disable_safety_checker ?R" by (simp add: example_defs)
  have h5: "list_all (has_nsfw_concept ?E) [1799, 1800]" by (simp add: example_defs)
  from all_outputs_filtered [OF h1 h2 h3 h4 h5]
  have "\<exists>st'. predict ?E ?R example_world = (Some (Exception all_filtered), [], st') \<and>
          saves (trace st') = [] \<and> files st' = {}"
    by (simp add: example_defs)
  with h1 h2 g h4 h5 show ?thesis by blast
qed

lemma digit_value_nth: "d < 10 \<Longrightarrow> digit_value (''0123456789'' ! d) = d"
proof -
  assume "d < 10"
  then have "d = 0 \<or> d = 1 \<or> d = 2 \<or> d = 3 \<or> d = 4 \<or> d = 5 \<or> d = 6 \<or> d = 7 \<or> d = 8 \<or> d = 9"
    by arith
  then show ?thesis by (elim disjE) (simp_all add: digit_value_def)
qed

lemma decimal_snoc: "decimal (s @ [c]) = 10 * decimal s + digit_value c"
  by (simp add: decimal_def)

lemma decimal_digits: "decimal (digits n) = n"
proof (induction n rule: digits.induct)
  case (1 n)
  show ?case
  proof (cases "n < 10")
    case True
    then show ?thesis by (simp add: digits.simps [of n] decimal_def digit_value_nth)
  next
    case False
    with 1 have "decimal (digits (n div 10)) = n div 10" by simp
    with False show ?thesis
      by (simp add: digits.simps [of n] decimal_snoc digit_value_nth)
  qed
qed

lemma digits_inj: "digits j = digits k \<Longrightarrow> j = k"
  by (metis decimal_digits)

lemma out_path_inj: "out_path j fmt = out_path k fmt \<Longrightarrow> j = k"
  by (simp add: out_path_def digits_inj)

lemma distinct_out_paths: "distinct (map (\<lambda>k. out_path k fmt) [m..<n])"
  by (simp add: distinct_map inj_on_def out_path_inj)

lemma predict_outputs:
  assumes "predict env req st = (e, ys, st')"
  shows "length ys \<le> nat (num_outputs req) \<and>
         ys = map (\<lambda>k. out_path k (output_format req)) [0..<length ys] \<and>
         map fst (saves (trace st')) = map fst (saves (trace st)) @ ys \<and>
         (aspect_ratio_to_width_height (aspect_ratio req) = Some (w, h) \<and>
          adapter_phase env req st = (None, st1) \<and>
          generated env (pipe_kwargs req w h) (adapters st1) (nat (num_outputs req))
            (manual_seed env (request_seed env req)) = Some imgs \<longrightarrow>
            length ys = length (filter (accepted env req) imgs) \<and>
            (disable_safety_checker req \<longrightarrow> length ys = nat (num_outputs req)))"
proof (cases rule: predict_cases [where req=req and env=env and st=st])
  case no_ratio
  with assms show ?thesis by (simp add: predict_no_ratio)
next
  case (no_adapter w' h' err st1')
  from adapter_phase_trace [OF no_adapter(2)] assms no_adapter show ?thesis
    by (auto simp add: predict_no_adapter)
next
  case (loop w' h' st1' e2 zs n st3)
  let ?st2 = "emit (ManualSeed (request_seed env req)) st1'"
  from assms have ys: "ys = zs" and st': "saves (trace st') = saves (trace st3)"
    by (auto simp add: predict_loop [OF loop] split: option.splits if_splits)
  from image_loop_shape [OF loop(3)] have shape: "map (\<lambda>k. out_path k (output_format req)) [0..<length zs] = zs"
    "length zs \<le> nat (num_outputs req)" by simp_all
  from image_loop_trace [OF loop(3)] adapter_phase_trace [OF loop(2)]
  have "saves (trace st3) = saves (trace st) @ map (\<lambda>p. (p, save_kwargs req)) zs" by simp
  then have sv: "map fst (saves (trace st3)) = map fst (saves (trace st)) @ zs"
    by (simp add: comp_def)
  have part: "length zs = length (filter (accepted env req) imgs) \<and>
            (disable_safety_checker req \<longrightarrow> length zs = nat (num_outputs req))"
    if a: "aspect_ratio_to_width_height (aspect_ratio req) = Some (w, h)"
       "adapter_phase env req st = (None, st1)"
       "generated env (pipe_kwargs req w h) (adapters st1) (nat (num_outputs req))
            (manual_seed env (request_seed env req)) = Some imgs"
  proof -
    from a loop have eq: "w' = w" "h' = h" "st1' = st1" by simp_all
    from a(3) have "generated env (pipe_kwargs req w h) (adapters ?st2) (length [0..<nat (num_outputs req)])
            (manual_seed env (request_seed env req)) = Some imgs"
      by (simp add: eq)
    from image_loop_generated [OF this] loop(3) have len: "length zs = length (filter (accepted env req) imgs)"
      by (simp add: eq)
    moreover have "length (filter (accepted env req) imgs) = length imgs" if "disable_safety_checker req"
      using that by (simp add: accepted_def)
    ultimately show ?thesis using generated_length [OF a(3)] by simp
  qed
  from part have "aspect_ratio_to_width_height (aspect_ratio req) = Some (w, h) \<and>
          adapter_phase env req st = (None, st1) \<and>
          generated env (pipe_kwargs req w h) (adapters st1) (nat (num_outputs req))
            (manual_seed env (request_seed env req)) = Some imgs \<longrightarrow>
            length zs = length (filter (accepted env req) imgs) \<and>
            (disable_safety_checker req \<longrightarrow> length zs = nat (num_outputs req))"
    by blast
  with shape sv show ?thesis unfolding ys st' by (intro conjI) (assumption | rule sym)+
qed


text \<open>
  Claim C4. A request of \<open>N\<close> outputs yields at most \<open>N\<close> paths. The path at position
  \<open>k\<close> is \<open>/tmp/out-\<close>, the decimal text of \<open>k\<close>, a dot and the requested extension, so
  the names count up from 0 with no gap and no two of them are equal; the images saved
  are saved under exactly these paths in this order. The index is the count of accepted
  images, so a flagged image takes no index. When no pipeline call raises, the number of
  paths is the number of accepted images, which with the filter disabled is \<open>N\<close>.
\<close>

theorem output_files:
  assumes "predict env req st = (e, ys, st')"
  shows "length ys \<le> nat (num_outputs req) \<and>
         ys = map (\<lambda>k. out_path k (output_format req)) [0..<length ys] \<and>
         ys = map (\<lambda>k. ''/tmp/out-'' @ digits k @ ''.'' @ output_format req) [0..<length ys] \<and>
         (digits 0 = ''0'' \<and> digits 1 = ''1'' \<and> digits 2 = ''2'' \<and> digits 3 = ''3'') \<and>
         decimal (digits k) = k \<and>
         distinct ys \<and>
         map fst (saves (trace st')) = map fst (saves (trace st)) @ ys \<and>
         (aspect_ratio_to_width_height (aspect_ratio req) = Some (w, h) \<and>
          adapter_phase env req st = (None, st1) \<and>
          generated env (pipe_kwargs req w h) (adapters st1) (nat (num_outputs req))
            (manual_seed env (request_seed env req)) = Some imgs \<longrightarrow>
            length ys = length (filter (accepted env req) imgs) \<and>
            (disable_safety_checker req \<longrightarrow> length ys = nat (num_outputs req)))"
proof -
  note base = predict_outputs [OF assms, of w h st1 imgs]
  from base have ys: "ys = map (\<lambda>k. out_path k (output_format req)) [0..<length ys]" by blast
  then have ys2: "ys = map (\<lambda>k. ''/tmp/out-'' @ digits k @ ''.'' @ output_format req) [0..<length ys]"
    by (simp add: out_path_def)
  have d: "distinct ys"
    using distinct_out_paths [of "output_format req" 0 "length ys"] ys by simp
  have small: "digits 0 = ''0'' \<and> digits 1 = ''1'' \<and> digits 2 = ''2'' \<and> digits 3 = ''3''"
    by (simp add: digits.simps)
  from base ys2 d small decimal_digits [of k] show ?thesis by (intro conjI) blast+
qed

theorem output_files_witness:
  "generated (example_env (\<lambda>i. i = 1800) (\<lambda>g. False))
     (pipe_kwargs (example_request\<lparr>num_outputs := 3\<rparr>) 1024 1024) [] 3 1799 =
     Some [1799, 1800, 1801] \<and>
   filter (accepted (example_env (\<lambda>i. i = 1800) (\<lambda>g. False)) (example_request\<lparr>num_outputs := 3\<rparr>))
     [1799, 1800, 1801] = [1799, 1801] \<and>
   fst (snd (predict (example_env (\<lambda>i. i = 1800) (\<lambda>g. False)) (example_request\<lparr>num_outputs := 3\<rparr>)
     example_world)) = [''/tmp/out-0.webp'', ''/tmp/out-1.webp''] \<and>
   map fst (saves (trace (snd (snd (predict (example_env (\<lambda>i. i = 1800) (\<lambda>g. False))
     (example_request\<lparr>num_outputs := 3\<rparr>) example_world))))) =
     [''/tmp/out-0.webp'', ''/tmp/out-1.webp'']"
proof -
  let ?E = "example_env (\<lambda>i. i = 1800) (\<lambda>g. False)"
  let ?R = "example_request\<lparr>num_outputs := 3\<rparr>"
  let ?p = "predict ?E ?R example_world"
  have run: "?p = (fst ?p, fst (snd ?p), snd (snd ?p))" by simp
  have h1: "aspect_ratio_to_width_height (aspect_ratio ?R) = Some (1024, 1024)"
    by (simp add: run_defs example_defs)
  have h2: "adapter_phase ?E ?R example_world = (None, unload_lora_weights example_world)"
    by (simp add: adapter_phase_def example_defs)
  have g: "generated ?E (pipe_kwargs ?R 1024 1024) [] 3 1799 = Some [1799, 1800, 1801]"
    by (simp add: example_defs numeral_3_eq_3)
  have "manual_seed ?E (request_seed ?E ?R) = 1799" "nat (num_outputs ?R) = 3"
    "adapters (unload_lora_weights example_world) = []"
    by (simp_all add: run_defs example_defs)
  with g have h3: "generated ?E (pipe_kwargs ?R 1024 1024) (adapters (unload_lora_weights example_world))
      (nat (num_outputs ?R)) (manual_seed ?E (request_seed ?E ?R)) = Some [1799, 1800, 1801]"
    by (simp only:)
  have f: "filter (accepted ?E ?R) [1799, 1800, 1801] = [1799, 1801]"
    by (simp add: accepted_def example_defs)
  have fmt: "output_format ?R = ''webp''" by (simp add: example_defs)
  from output_files [OF run, of 0 1024 1024 "unload_lora_weights example_world" "[1799, 1800, 1801]"] h1 h2 h3
  have len: "length (fst (snd ?p)) = length (filter (accepted ?E ?R) [1799, 1800, 1801])"
    and ys: "fst (snd ?p) = map (\<lambda>k. ''/tmp/out-'' @ digits k @ ''.'' @ output_format ?R)
               [0..<length (fst (snd ?p))]"
    and dg: "digits 0 = ''0'' \<and> digits 1 = ''1'' \<and> digits 2 = ''2'' \<and> digits 3 = ''3''"
    and sv: "map fst (saves (trace (snd (snd ?p)))) = map fst (saves (trace example_world)) @ fst (snd ?p)"
    by blast+
  from len f have "length (fst (snd ?p)) = 2" by simp
  with ys have "fst (snd ?p) = map (\<lambda>k. ''/tmp/out-'' @ digits k @ ''.'' @ output_format ?R) [0..<2]"
    by simp
  also have "\<dots> = [''/tmp/out-0.webp'', ''/tmp/out-1.webp'']"
    using dg by (simp add: fmt upt_rec numeral_2_eq_2)
  finally have a: "fst (snd ?p) = [''/tmp/out-0.webp'', ''/tmp/out-1.webp'']" .
  with sv have b: "map fst (saves (trace (snd (snd ?p)))) = [''/tmp/out-0.webp'', ''/tmp/out-1.webp'']"
    by (simp add: example_world_def)
  from g f a b show ?thesis by blast
qed


text \<open>
  Claim C10. When a request with an adapter reference has every generated image flagged,
  the adapter that was attached for it is unloaded and the all-outputs-filtered error
  is raised after that: the unload is the last call of the run, and no adapter is
  attached when the request has failed.
\<close>

theorem all_filtered_unloads:
  assumes "hf_lora req = Some r"
    and "aspect_ratio_to_width_height (aspect_ratio req) = Some (w, h)"
    and "adapter_phase env req st = (None, st1)"
    and "generated env (pipe_kwargs req w h) (adapters st1) (nat (num_outputs req))
                (manual_seed env (request_seed env req)) = Some imgs"
    and "\<not> disable_safety_checker req"
    and "list_all (has_nsfw_concept env) imgs"
  shows "\<exists>st'. predict env req st = (Some (Exception all_filtered), [], st') \<and>
           adapters st1 \<noteq> [] \<and> adapters st' = [] \<and> last (trace st') = UnloadLora"
proof -
  from adapter_phase_trace [OF assms(3)] assms(1) have "adapters st1 \<noteq> []" by auto
  then show ?thesis
    using predict_all_flagged [OF assms(2-6)] assms(1) by simp
qed

theorem all_filtered_unloads_witness:
  "hf_lora (example_request\<lparr>hf_lora := Some ''a/b''\<rparr>) = Some ''a/b'' \<and>
   adapter_phase (example_env (\<lambda>i. True) (\<lambda>g. False)) (example_request\<lparr>hf_lora := Some ''a/b''\<rparr>)
     example_world =
     (None, \<lparr>adapters = [(''a/b'', None)], files = {}, trace = [LoadLora ''a/b'' None]\<rparr>) \<and>
   generated (example_env (\<lambda>i. True) (\<lambda>g. False))
     (pipe_kwargs (example_request\<lparr>hf_lora := Some ''a/b''\<rparr>) 1024 1024) [(''a/b'', None)] 1 1799 =
     Some [1799] \<and>
   list_all (has_nsfw_concept (example_env (\<lambda>i. True) (\<lambda>g. False))) [1799] \<and>
   (\<exists>st'. predict (example_env (\<lambda>i. True) (\<lambda>g. False)) (example_request\<lparr>hf_lora := Some ''a/b''\<rparr>)
            example_world = (Some (Exception all_filtered), [], st') \<and>
          adapters st' = [] \<and> last (trace st') = UnloadLora)"
proof -
  let ?E = "example_env (\<lambda>i. True) (\<lambda>g. False)"
  let ?R = "example_request\<lparr>hf_lora := Some ''a/b''\<rparr>"
  let ?st1 = "\<lparr>adapters = [(''a/b'', None)], files = {}, trace = [LoadLora ''a/b'' None]\<rparr> :: nat world"
  have h0: "hf_lora ?R = Some ''a/b''" by simp
  have h1: "aspect_ratio_to_width_height (aspect_ratio ?R) = Some (1024, 1024)"
    by (simp add: run_defs example_defs)
  have h2: "adapter_phase ?E ?R example_world = (None, ?st1)"
    by (simp add: run_defs example_defs match_defs)
  have g: "generated ?E (pipe_kwargs ?R 1024 1024) [(''a/b'', None)] 1 1799 = Some [1799]"
    by (simp add: example_defs)
  have "manual_seed ?E (request_seed ?E ?R) = 1799" "nat (num_outputs ?R) = 1"
    "adapters ?st1 = [(''a/b'', None)]"
    by (simp_all add: run_defs example_defs)
  with g have h3: "generated ?E (pipe_kwargs ?R 1024 1024) (adapters ?st1)
      (nat (num_outputs ?R)) (manual_seed ?E (request_seed ?E ?R)) = Some [1799]"
    by (simp only:)
  have h4: "\<not> disable_safety_checker ?R" by (simp add: example_defs)
  have h5: "list_all (has_nsfw_concept ?E) [1799]" by (simp add: example_defs)
  from all_filtered_unloads [OF h0 h1 h2 h3 h4 h5]
  have "\<exists>st'. predict ?E ?R example_world = (Some (Exception all_filtered), [], st') \<and>
          adapters st' = [] \<and> last (trace st') = UnloadLora"
    by blast
  with h0 h2 g h5 show ?thesis by blast
qed



section \<open>The format and the quality of the saved images\<close>

lemma predict_png_quality:
  assumes png: "output_format req = ''png''"
  shows "predict env (req\<lparr>output_quality := q\<rparr>) st = predict env req st"
proof -
  let ?req = "req\<lparr>output_quality := q\<rparr>"
  have ar: "aspect_ratio ?req = aspect_ratio req" by simp
  have sd: "request_seed env ?req = request_seed env req" by (simp add: request_seed_def)
  have ph: "adapter_phase env ?req st = adapter_phase env req st" by (simp add: adapter_phase_def)
  have kw: "pipe_kwargs ?req w h = pipe_kwargs req w h" for w h
    by (simp add: pipe_kwargs_def split: option.splits)
  show ?thesis
  proof (cases rule: predict_cases [where req=req and env=env and st=st])
    case no_ratio
    then show ?thesis by (simp add: predict_no_ratio)
  next
    case (no_adapter w h err st1)
    then show ?thesis
      using predict_no_adapter [of ?req w h env st err st1] by (simp add: ph predict_no_adapter)
  next
    case (loop w h st1 e2 zs n st3)
    from loop(3) png have "image_loop env ?req (pipe_kwargs ?req w h) [0..<nat (num_outputs ?req)]
         (manual_seed env (request_seed env ?req)) 0 (emit (ManualSeed (request_seed env ?req)) st1) =
         (e2, zs, n, st3)"
      by (simp add: sd kw image_loop_png_quality)
    moreover have "aspect_ratio_to_width_height (aspect_ratio ?req) = Some (w, h)"
      using loop(1) by simp
    moreover have "adapter_phase env ?req st = (None, st1)"
      using loop(2) by (simp add: ph)
    ultimately have "predict env ?req st =
     (case e2 of
        Some err \<Rightarrow> (Some err, zs, st3)
      | None \<Rightarrow>
          (if n = 0 then Some (Exception all_filtered) else None, zs,
           if hf_lora ?req \<noteq> None then unload_lora_weights st3 else st3))"
      by (intro predict_loop)
    then show ?thesis by (cases e2) (simp_all add: predict_loop [OF loop])
  qed
qed

lemma predict_saves:
  assumes "predict env req st = (e, ys, st')"
  shows "saves (trace st') = saves (trace st) @ map (\<lambda>p. (p, save_kwargs req)) ys"
proof (cases rule: predict_cases [where req=req and env=env and st=st])
  case no_ratio
  with assms show ?thesis by (simp add: predict_no_ratio)
next
  case (no_adapter w h err st1)
  from adapter_phase_trace [OF no_adapter(2)] assms no_adapter show ?thesis
    by (auto simp add: predict_no_adapter)
next
  case (loop w h st1 e2 zs n st3)
  from assms have ys: "ys = zs" and st': "saves (trace st') = saves (trace st3)"
    by (auto simp add: predict_loop [OF loop] split: option.splits if_splits)
  from image_loop_trace [OF loop(3)] adapter_phase_trace [OF loop(2)]
  have "saves (trace st3) = saves (trace st) @ map (\<lambda>p. (p, save_kwargs req)) zs" by simp
  then show ?thesis by (simp only: ys st')
qed

text \<open>
  Claim C7. With the output format \<open>png\<close> the quality parameter has no effect at all: the
  whole run, every \<open>image.save\<close> call in it included, is the same for every quality
  value. With any other format, \<open>webp\<close> and \<open>jpg\<close> among them, every accepted image is
  saved with \<open>quality\<close> set to the requested quality and \<open>optimize\<close> set; with \<open>png\<close> it
  is saved with no such argument.
\<close>

theorem save_quality:
  "(output_format req = ''png'' \<longrightarrow>
      predict env (req\<lparr>output_quality := q\<rparr>) st = predict env req st) \<and>
   (predict env req st = (e, ys, st') \<longrightarrow>
      saves (trace st') = saves (trace st) @
        map (\<lambda>p. (p, if output_format req \<noteq> ''png'' then Some (output_quality req, True) else None)) ys)"
  using predict_png_quality [of req env q st] predict_saves [of env req st e ys st']
  by (simp add: save_kwargs_def)

theorem save_quality_witness:
  "output_format (example_request\<lparr>output_format := ''png''\<rparr>) = ''png'' \<and>
   predict (example_env (\<lambda>i. False) (\<lambda>g. False))
     (example_request\<lparr>output_format := ''png'', output_quality := 5\<rparr>) example_world =
   predict (example_env (\<lambda>i. False) (\<lambda>g. False))
     (example_request\<lparr>output_format := ''png''\<rparr>) example_world \<and>
   saves (trace (snd (snd (predict (example_env (\<lambda>i. False) (\<lambda>g. False))
     (example_request\<lparr>output_format := ''png''\<rparr>) example_world)))) = [(''/tmp/out-0.png'', None)] \<and>
   saves (trace (snd (snd (predict (example_env (\<lambda>i. False) (\<lambda>g. False))
     example_request example_world)))) = [(''/tmp/out-0.webp'', Some (80, True))]"
proof -
  let ?E = "example_env (\<lambda>i. False) (\<lambda>g. False)"
  let ?R = "example_request\<lparr>output_format := ''png''\<rparr>"
  let ?p = "predict ?E ?R example_world"
  let ?q = "predict ?E example_request example_world"
  have png: "output_format ?R = ''png''" by simp
  have run: "?p = (fst ?p, fst (snd ?p), snd (snd ?p))" by simp
  have ys: "fst (snd ?p) = [''/tmp/out-0.png'']"
    by (simp add: run_defs example_defs)
  from save_quality [of ?R ?E 5 example_world "fst ?p" "fst (snd ?p)" "snd (snd ?p)"] png run
  have a: "predict ?E (?R\<lparr>output_quality := 5\<rparr>) example_world = ?p"
    and b: "saves (trace (snd (snd ?p))) = saves (trace example_world) @
        map (\<lambda>p. (p, if output_format ?R \<noteq> ''png'' then Some (output_quality ?R, True) else None))
          (fst (snd ?p))"
    by blast+
  have sw: "saves (trace example_world) = []" by (simp add: example_world_def)
  from b have b': "saves (trace (snd (snd ?p))) = [(''/tmp/out-0.png'', None)]"
    unfolding ys sw by simp
  have run2: "?q = (fst ?q, fst (snd ?q), snd (snd ?q))" by simp
  from save_quality [of example_request ?E 5 example_world "fst ?q" "fst (snd ?q)" "snd (snd ?q)"] run2
  have "saves (trace (snd (snd ?q))) = saves (trace example_world) @
        map (\<lambda>p. (p, if output_format example_request \<noteq> ''png''
                      then Some (output_quality example_request, True) else None))
          (fst (snd ?q))"
    by blast
  moreover have "fst (snd ?q) = [''/tmp/out-0.webp'']" by (simp add: example_run)
  moreover have "output_format example_request = ''webp''" "output_quality example_request = 80"
    by (simp_all add: example_request_def)
  ultimately have c: "saves (trace (snd (snd ?q))) = [(''/tmp/out-0.webp'', Some (80, True))]"
    unfolding sw by simp
  from png a b' c show ?thesis by simp
qed


section \<open>The adapters attached to the pipeline\<close>

lemma predict_adapters:
  assumes "predict env req st = (e, ys, st')"
  shows "length (loads (trace st')) \<le> Suc (length (loads (trace st))) \<and>
         (adapters st = [] \<longrightarrow> length (adapters st') \<le> 1) \<and>
         (hf_lora req = None \<and> aspect_ratio_to_width_height (aspect_ratio req) \<noteq> None \<longrightarrow>
            adapters st' = [])"
proof (cases rule: predict_cases [where req=req and env=env and st=st])
  case no_ratio
  with assms show ?thesis by (simp add: predict_no_ratio)
next
  case (no_adapter w h err st1)
  from adapter_phase_trace [OF no_adapter(2)] assms no_adapter show ?thesis
    by (auto simp add: predict_no_adapter split: option.splits)
next
  case (loop w h st1 e2 zs n st3)
  from adapter_phase_trace [OF loop(2)]
  have l1: "length (loads (trace st1)) \<le> Suc (length (loads (trace st)))"
    and a1: "adapters st = [] \<longrightarrow> length (adapters st1) \<le> 1"
    and n1: "hf_lora req = None \<longrightarrow> adapters st1 = []"
    by (auto split: option.splits)
  from image_loop_trace [OF loop(3)] image_loop_adapters [OF loop(3)]
  have l3: "loads (trace st3) = loads (trace st1)" and a3: "adapters st3 = adapters st1"
    by simp_all
  from assms have "st' = st3 \<or> st' = unload_lora_weights st3"
    by (auto simp add: predict_loop [OF loop] split: option.splits if_splits)
  moreover from assms have "hf_lora req = None \<longrightarrow> st' = st3"
    by (auto simp add: predict_loop [OF loop] split: option.splits if_splits)
  ultimately show ?thesis using l1 a1 n1 l3 a3 by auto
qed

lemma predict_completes_detached:
  assumes ar: "aspect_ratio_to_width_height (aspect_ratio req) = Some (w, h)"
    and ph: "adapter_phase env req st = (None, st1)"
    and gen: "generated env (pipe_kwargs req w h) (adapters st1) (nat (num_outputs req))
                (manual_seed env (request_seed env req)) = Some imgs"
  shows "adapters (snd (snd (predict env req st))) = []"
proof -
  let ?st2 = "emit (ManualSeed (request_seed env req)) st1"
  obtain e2 zs n st3 where lp: "image_loop env req (pipe_kwargs req w h) [0..<nat (num_outputs req)]
         (manual_seed env (request_seed env req)) 0 ?st2 = (e2, zs, n, st3)"
    using prod_cases4 by blast
  from gen have "generated env (pipe_kwargs req w h) (adapters ?st2) (length [0..<nat (num_outputs req)])
            (manual_seed env (request_seed env req)) = Some imgs"
    by simp
  from image_loop_generated [OF this lp] have e2: "e2 = None" by simp
  from image_loop_adapters [OF lp] have a3: "adapters st3 = adapters st1" by simp
  from adapter_phase_trace [OF ph] have "hf_lora req = None \<longrightarrow> adapters st1 = []"
    by (auto split: option.splits)
  with a3 show ?thesis by (simp add: predict_loop [OF ar ph lp] e2)
qed

text \<open>
  Claim C5, as the code has it. A request loads at most one adapter, and on a pipeline
  that has none when the request starts at most one is attached at any time of it:
  after the adapter phase, through the loop, which changes no adapter, and at the end. A
  request that carries no adapter reference unloads whatever was attached, before it
  generates. After a request that runs its loop to the end (no pipeline call raised),
  the all-outputs-filtered failure included, no adapter is attached. Nothing is said for
  a request that ends in an error raised by the adapter load or by a pipeline call.
\<close>

theorem adapter_detached:
  "(predict env req st = (e, ys, st') \<longrightarrow>
      length (loads (trace st')) \<le> Suc (length (loads (trace st))) \<and>
      (adapters st = [] \<longrightarrow> length (adapters st') \<le> 1) \<and>
      (hf_lora req = None \<and> aspect_ratio_to_width_height (aspect_ratio req) \<noteq> None \<longrightarrow>
         adapters st' = [])) \<and>
   (adapters st = [] \<and> adapter_phase env req st = (e1, st1) \<longrightarrow> length (adapters st1) \<le> 1) \<and>
   (image_loop env req kw ns g cnt s = (e2, zs, n, s') \<longrightarrow> adapters s' = adapters s) \<and>
   (aspect_ratio_to_width_height (aspect_ratio req) = Some (w, h) \<and>
    adapter_phase env req st = (None, st1) \<and>
    generated env (pipe_kwargs req w h) (adapters st1) (nat (num_outputs req))
      (manual_seed env (request_seed env req)) = Some imgs \<longrightarrow>
      adapters (snd (snd (predict env req st))) = [])"
proof -
  have 1: "predict env req st = (e, ys, st') \<longrightarrow>
      length (loads (trace st')) \<le> Suc (length (loads (trace st))) \<and>
      (adapters st = [] \<longrightarrow> length (adapters st') \<le> 1) \<and>
      (hf_lora req = None \<and> aspect_ratio_to_width_height (aspect_ratio req) \<noteq> None \<longrightarrow>
         adapters st' = [])"
    using predict_adapters [of env req st e ys st'] by blast
  have 2: "adapters st = [] \<and> adapter_phase env req st = (e1, st1) \<longrightarrow> length (adapters st1) \<le> 1"
    using adapter_phase_trace [of env req st e1 st1] by (auto split: option.splits)
  have 3: "image_loop env req kw ns g cnt s = (e2, zs, n, s') \<longrightarrow> adapters s' = adapters s"
    using image_loop_adapters [of env req kw ns g cnt s e2 zs n s'] by blast
  have 4: "aspect_ratio_to_width_height (aspect_ratio req) = Some (w, h) \<and>
    adapter_phase env req st = (None, st1) \<and>
    generated env (pipe_kwargs req w h) (adapters st1) (nat (num_outputs req))
      (manual_seed env (request_seed env req)) = Some imgs \<longrightarrow>
      adapters (snd (snd (predict env req st))) = []"
    using predict_completes_detached [of req w h env st st1 imgs] by blast
  from 1 2 3 4 show ?thesis by (intro conjI)
qed

theorem adapter_detached_witness:
  "adapters example_world = [] \<and>
   adapter_phase (example_env (\<lambda>i. False) (\<lambda>g. False)) (example_request\<lparr>hf_lora := Some ''a/b''\<rparr>)
     example_world =
     (None, \<lparr>adapters = [(''a/b'', None)], files = {}, trace = [LoadLora ''a/b'' None]\<rparr>) \<and>
   generated (example_env (\<lambda>i. False) (\<lambda>g. False))
     (pipe_kwargs (example_request\<lparr>hf_lora := Some ''a/b''\<rparr>) 1024 1024) [(''a/b'', None)] 1 1799 =
     Some [1799] \<and>
   adapters (snd (snd (predict (example_env (\<lambda>i. False) (\<lambda>g. False))
     (example_request\<lparr>hf_lora := Some ''a/b''\<rparr>) example_world))) = [] \<and>
   length (loads (trace (snd (snd (predict (example_env (\<lambda>i. False) (\<lambda>g. False))
     (example_request\<lparr>hf_lora := Some ''a/b''\<rparr>) example_world))))) \<le> 1 \<and>
   hf_lora example_request = None \<and>
   adapters (snd (snd (predict (example_env (\<lambda>i. False) (\<lambda>g. False)) example_request
     (example_world\<lparr>adapters := [(''a/b'', None)]\<rparr>)))) = []"
proof -
  let ?E = "example_env (\<lambda>i. False) (\<lambda>g. False)"
  let ?R = "example_request\<lparr>hf_lora := Some ''a/b''\<rparr>"
  let ?st1 = "\<lparr>adapters = [(''a/b'', None)], files = {}, trace = [LoadLora ''a/b'' None]\<rparr> :: nat world"
  let ?p = "predict ?E ?R example_world"
  let ?W = "example_world\<lparr>adapters := [(''a/b'', None)]\<rparr>"
  let ?q = "predict ?E example_request ?W"
  have w: "adapters example_world = []" "loads (trace example_world) = []"
    by (simp_all add: example_world_def)
  have run: "?p = (fst ?p, fst (snd ?p), snd (snd ?p))" by simp
  have run2: "?q = (fst ?q, fst (snd ?q), snd (snd ?q))" by simp
  have h1: "aspect_ratio_to_width_height (aspect_ratio ?R) = Some (1024, 1024)"
    by (simp add: run_defs example_defs)
  have h2: "adapter_phase ?E ?R example_world = (None, ?st1)"
    by (simp add: run_defs example_defs match_defs)
  have g: "generated ?E (pipe_kwargs ?R 1024 1024) [(''a/b'', None)] 1 1799 = Some [1799]"
    by (simp add: example_defs)
  have "manual_seed ?E (request_seed ?E ?R) = 1799" "nat (num_outputs ?R) = 1"
    "adapters ?st1 = [(''a/b'', None)]"
    by (simp_all add: run_defs example_defs)
  with g have h3: "generated ?E (pipe_kwargs ?R 1024 1024) (adapters ?st1)
      (nat (num_outputs ?R)) (manual_seed ?E (request_seed ?E ?R)) = Some [1799]"
    by (simp only:)
  note inst = adapter_detached [where env = ?E and req = ?R and st = example_world
      and e = "fst ?p" and ys = "fst (snd ?p)" and st' = "snd (snd ?p)"
      and w = 1024 and h = 1024 and ?st1.0 = ?st1 and imgs = "[1799]"]
  from inst run h1 h2 h3 have a: "adapters (snd (snd ?p)) = []" by blast
  from inst run have "length (loads (trace (snd (snd ?p)))) \<le> Suc (length (loads (trace example_world)))"
    by blast
  then have b: "length (loads (trace (snd (snd ?p)))) \<le> 1" by (simp add: w)
  have n: "hf_lora example_request = None"
    "aspect_ratio_to_width_height (aspect_ratio example_request) \<noteq> None"
    by (simp_all add: run_defs example_defs)
  from adapter_detached [where env = ?E and req = example_request and st = ?W
      and e = "fst ?q" and ys = "fst (snd ?q)" and st' = "snd (snd ?q)"] run2 n
  have c: "adapters (snd (snd ?q)) = []" by blast
  from w(1) h2 g a b n(1) c show ?thesis by blast
qed


text \<open>
  Claim C5 as the specification words it fails: when the pipeline raises in the loop,
  the request ends with its adapter still attached. The unload of lines 218 and 219
  comes after the loop and is not reached.
\<close>

theorem adapter_left_attached_counterexample:
  "fst (predict (example_env (\<lambda>i. False) (\<lambda>g. True)) (example_request\<lparr>hf_lora := Some ''a/b''\<rparr>)
          example_world) = Some (LibraryError ''out of memory'') \<and>
   adapters (snd (snd (predict (example_env (\<lambda>i. False) (\<lambda>g. True))
          (example_request\<lparr>hf_lora := Some ''a/b''\<rparr>) example_world))) = [(''a/b'', None)]"
  by (simp add: run_defs example_defs match_defs)


section \<open>Provisioning the weights\<close>

lemma caches_differ: "MODEL_CACHE \<noteq> SAFETY_CACHE"
  by (simp add: MODEL_CACHE_def SAFETY_CACHE_def)

lemma download_weights_unpack:
  "download_weights env url dest False st =
     (if exit_status env [''pget'', ''-x'', url, dest] = 0
      then (None, (emit (Subprocess [''pget'', ''-x'', url, dest]) st)\<lparr>files := insert dest (files st)\<rparr>)
      else (Some (CalledProcessError (exit_status env [''pget'', ''-x'', url, dest])),
            emit (Subprocess [''pget'', ''-x'', url, dest]) st))"
  by (simp add: download_weights_def check_call_def Let_def emit_def)

lemma provision_eq:
  "provision env url dest st =
     (if dest \<in> files st then (None, st)
      else if exit_status env [''pget'', ''-x'', url, dest] = 0
      then (None, (emit (Subprocess [''pget'', ''-x'', url, dest]) st)\<lparr>files := insert dest (files st)\<rparr>)
      else (Some (CalledProcessError (exit_status env [''pget'', ''-x'', url, dest])),
            emit (Subprocess [''pget'', ''-x'', url, dest]) st))"
  by (simp add: provision_def download_weights_unpack)

lemma setup_downloads:
  "subprocesses (trace (snd (Predictor_setup env st))) =
     subprocesses (trace st) @
     (if SAFETY_CACHE \<in> files st then [] else [[''pget'', ''-x'', SAFETY_URL, SAFETY_CACHE]]) @
     (if (SAFETY_CACHE \<in> files st \<or> exit_status env [''pget'', ''-x'', SAFETY_URL, SAFETY_CACHE] = 0) \<and>
         MODEL_CACHE \<notin> files st
      then [[''pget'', ''-x'', MODEL_URL, MODEL_CACHE]] else [])"
  using caches_differ by (simp add: Predictor_setup_def provision_eq Let_def)

lemma setup_outcome:
  "fst (Predictor_setup env st) =
     (if SAFETY_CACHE \<notin> files st \<and> exit_status env [''pget'', ''-x'', SAFETY_URL, SAFETY_CACHE] \<noteq> 0
      then Some (CalledProcessError (exit_status env [''pget'', ''-x'', SAFETY_URL, SAFETY_CACHE]))
      else if MODEL_CACHE \<notin> files st \<and> exit_status env [''pget'', ''-x'', MODEL_URL, MODEL_CACHE] \<noteq> 0
      then Some (CalledProcessError (exit_status env [''pget'', ''-x'', MODEL_URL, MODEL_CACHE]))
      else None)"
  using caches_differ by (simp add: Predictor_setup_def provision_eq Let_def)

lemma setup_files:
  "fst (Predictor_setup env st) = None \<Longrightarrow>
   files (snd (Predictor_setup env st)) = insert MODEL_CACHE (insert SAFETY_CACHE (files st))"
  using caches_differ
  by (auto simp add: Predictor_setup_def provision_eq Let_def split: if_splits)

text \<open>
  Claim C8. Where the destination exists nothing is run and the state is unchanged;
  where it does not, the download tool is run exactly once with the extraction flag,
  and its exit status decides: zero leaves the destination on local storage, anything
  else raises \<open>CalledProcessError\<close> with no second attempt. This is what
  \<open>download_weights\<close> does unguarded, and what the method \<open>setup\<close> of the predictor does
  for each of its two bundles in turn: it runs the tool for the safety bundle exactly
  when its cache is absent, then for the model bundle exactly when its cache is absent
  and the first step did not fail, it fails with the error of the first download that
  fails, and when it succeeds both caches exist.
\<close>

theorem provision_contract:
  "download_weights env url dest False st =
     (if exit_status env [''pget'', ''-x'', url, dest] = 0
      then (None, (emit (Subprocess [''pget'', ''-x'', url, dest]) st)\<lparr>files := insert dest (files st)\<rparr>)
      else (Some (CalledProcessError (exit_status env [''pget'', ''-x'', url, dest])),
            emit (Subprocess [''pget'', ''-x'', url, dest]) st)) \<and>
   subprocesses (trace (snd (Predictor_setup env st))) =
     subprocesses (trace st) @
     (if SAFETY_CACHE \<in> files st then [] else [[''pget'', ''-x'', SAFETY_URL, SAFETY_CACHE]]) @
     (if (SAFETY_CACHE \<in> files st \<or> exit_status env [''pget'', ''-x'', SAFETY_URL, SAFETY_CACHE] = 0) \<and>
         MODEL_CACHE \<notin> files st
      then [[''pget'', ''-x'', MODEL_URL, MODEL_CACHE]] else []) \<and>
   fst (Predictor_setup env st) =
     (if SAFETY_CACHE \<notin> files st \<and> exit_status env [''pget'', ''-x'', SAFETY_URL, SAFETY_CACHE] \<noteq> 0
      then Some (CalledProcessError (exit_status env [''pget'', ''-x'', SAFETY_URL, SAFETY_CACHE]))
      else if MODEL_CACHE \<notin> files st \<and> exit_status env [''pget'', ''-x'', MODEL_URL, MODEL_CACHE] \<noteq> 0
      then Some (CalledProcessError (exit_status env [''pget'', ''-x'', MODEL_URL, MODEL_CACHE]))
      else None) \<and>
   (fst (Predictor_setup env st) = None \<longrightarrow>
      files (snd (Predictor_setup env st)) = insert MODEL_CACHE (insert SAFETY_CACHE (files st))) \<and>
   (dest \<in> files st \<longrightarrow> provision env url dest st = (None, st)) \<and>
   (dest \<notin> files st \<and> exit_status env [''pget'', ''-x'', url, dest] = 0 \<longrightarrow>
      provision env url dest st =
        (None, (emit (Subprocess [''pget'', ''-x'', url, dest]) st)\<lparr>files := insert dest (files st)\<rparr>)) \<and>
   (dest \<notin> files st \<and> exit_status env [''pget'', ''-x'', url, dest] \<noteq> 0 \<longrightarrow>
      provision env url dest st =
        (Some (CalledProcessError (exit_status env [''pget'', ''-x'', url, dest])),
         emit (Subprocess [''pget'', ''-x'', url, dest]) st)) \<and>
   (SAFETY_CACHE \<notin> files st \<and> exit_status env [''pget'', ''-x'', SAFETY_URL, SAFETY_CACHE] \<noteq> 0 \<longrightarrow>
      Predictor_setup env st =
        (Some (CalledProcessError (exit_status env [''pget'', ''-x'', SAFETY_URL, SAFETY_CACHE])),
         emit (Subprocess [''pget'', ''-x'', SAFETY_URL, SAFETY_CACHE]) st)) \<and>
   (SAFETY_CACHE \<in> files st \<and> MODEL_CACHE \<in> files st \<longrightarrow>
      fst (Predictor_setup env st) = None \<and>
      subprocesses (trace (snd (Predictor_setup env st))) = subprocesses (trace st))"
proof -
  have guarded:
   "(dest \<in> files st \<longrightarrow> provision env url dest st = (None, st)) \<and>
   (dest \<notin> files st \<and> exit_status env [''pget'', ''-x'', url, dest] = 0 \<longrightarrow>
      provision env url dest st =
        (None, (emit (Subprocess [''pget'', ''-x'', url, dest]) st)\<lparr>files := insert dest (files st)\<rparr>)) \<and>
   (dest \<notin> files st \<and> exit_status env [''pget'', ''-x'', url, dest] \<noteq> 0 \<longrightarrow>
      provision env url dest st =
        (Some (CalledProcessError (exit_status env [''pget'', ''-x'', url, dest])),
         emit (Subprocess [''pget'', ''-x'', url, dest]) st)) \<and>
   (SAFETY_CACHE \<notin> files st \<and> exit_status env [''pget'', ''-x'', SAFETY_URL, SAFETY_CACHE] \<noteq> 0 \<longrightarrow>
      Predictor_setup env st =
        (Some (CalledProcessError (exit_status env [''pget'', ''-x'', SAFETY_URL, SAFETY_CACHE])),
         emit (Subprocess [''pget'', ''-x'', SAFETY_URL, SAFETY_CACHE]) st)) \<and>
   (SAFETY_CACHE \<in> files st \<and> MODEL_CACHE \<in> files st \<longrightarrow>
      fst (Predictor_setup env st) = None \<and>
      subprocesses (trace (snd (Predictor_setup env st))) = subprocesses (trace st))"
    by (simp add: provision_def download_weights_def check_call_def Predictor_setup_def Let_def emit_def)
  have files: "fst (Predictor_setup env st) = None \<longrightarrow>
      files (snd (Predictor_setup env st)) = insert MODEL_CACHE (insert SAFETY_CACHE (files st))"
    using setup_files [of env st] by blast
  show ?thesis
    by (rule conjI [OF download_weights_unpack conjI [OF setup_downloads
          conjI [OF setup_outcome conjI [OF files guarded]]]])
qed

theorem provision_contract_witness:
  "Predictor_setup (example_env (\<lambda>i. False) (\<lambda>g. False)) example_world =
     (None,
      \<lparr>adapters = [], files = {MODEL_CACHE, SAFETY_CACHE},
       trace = [Subprocess [''pget'', ''-x'', SAFETY_URL, SAFETY_CACHE],
                FromPretrained SAFETY_CACHE, FromPretrained FEATURE_EXTRACTOR,
                Subprocess [''pget'', ''-x'', MODEL_URL, MODEL_CACHE],
                FromPretrained ''black-forest-labs/FLUX.1-dev'']\<rparr>) \<and>
   subprocesses (trace (snd (Predictor_setup (example_env (\<lambda>i. False) (\<lambda>g. False)) example_world))) =
     [[''pget'', ''-x'', SAFETY_URL, SAFETY_CACHE], [''pget'', ''-x'', MODEL_URL, MODEL_CACHE]] \<and>
   SAFETY_CACHE \<in> files (example_world\<lparr>files := {SAFETY_CACHE}\<rparr>) \<and>
   MODEL_CACHE \<notin> files (example_world\<lparr>files := {SAFETY_CACHE}\<rparr>) \<and>
   subprocesses (trace (snd (Predictor_setup
      ((example_env (\<lambda>i. False) (\<lambda>g. False))\<lparr>exit_status := \<lambda>argv. 2\<rparr>)
      (example_world\<lparr>files := {SAFETY_CACHE}\<rparr>)))) = [[''pget'', ''-x'', MODEL_URL, MODEL_CACHE]] \<and>
   fst (Predictor_setup ((example_env (\<lambda>i. False) (\<lambda>g. False))\<lparr>exit_status := \<lambda>argv. 2\<rparr>)
      (example_world\<lparr>files := {SAFETY_CACHE}\<rparr>)) = Some (CalledProcessError 2) \<and>
   SAFETY_CACHE \<in> files (example_world\<lparr>files := {SAFETY_CACHE, MODEL_CACHE}\<rparr>) \<and>
   provision (example_env (\<lambda>i. False) (\<lambda>g. False)) SAFETY_URL SAFETY_CACHE
     (example_world\<lparr>files := {SAFETY_CACHE, MODEL_CACHE}\<rparr>) =
     (None, example_world\<lparr>files := {SAFETY_CACHE, MODEL_CACHE}\<rparr>) \<and>
   subprocesses (trace (snd (Predictor_setup (example_env (\<lambda>i. False) (\<lambda>g. False))
     (example_world\<lparr>files := {SAFETY_CACHE, MODEL_CACHE}\<rparr>)))) = [] \<and>
   SAFETY_CACHE \<notin> files example_world \<and>
   provision (example_env (\<lambda>i. False) (\<lambda>g. False)) SAFETY_URL SAFETY_CACHE example_world =
     (None, \<lparr>adapters = [], files = {SAFETY_CACHE},
             trace = [Subprocess [''pget'', ''-x'', SAFETY_URL, SAFETY_CACHE]]\<rparr>) \<and>
   provision ((example_env (\<lambda>i. False) (\<lambda>g. False))\<lparr>exit_status := \<lambda>argv. 1\<rparr>)
     SAFETY_URL SAFETY_CACHE example_world =
     (Some (CalledProcessError 1),
      \<lparr>adapters = [], files = {}, trace = [Subprocess [''pget'', ''-x'', SAFETY_URL, SAFETY_CACHE]]\<rparr>) \<and>
   Predictor_setup ((example_env (\<lambda>i. False) (\<lambda>g. False))\<lparr>exit_status := \<lambda>argv. 1\<rparr>)
     example_world =
     (Some (CalledProcessError 1),
      \<lparr>adapters = [], files = {}, trace = [Subprocess [''pget'', ''-x'', SAFETY_URL, SAFETY_CACHE]]\<rparr>)"
proof -
  let ?E = "example_env (\<lambda>i. False) (\<lambda>g. False)"
  let ?F = "?E\<lparr>exit_status := \<lambda>argv. 1\<rparr>"
  let ?G = "?E\<lparr>exit_status := \<lambda>argv. 2\<rparr>"
  let ?W = "example_world\<lparr>files := {SAFETY_CACHE, MODEL_CACHE}\<rparr>"
  let ?V = "example_world\<lparr>files := {SAFETY_CACHE}\<rparr>"
  let ?argv = "[''pget'', ''-x'', SAFETY_URL, SAFETY_CACHE]"
  let ?argm = "[''pget'', ''-x'', MODEL_URL, MODEL_CACHE]"
  have in1: "SAFETY_CACHE \<in> files ?W" "MODEL_CACHE \<in> files ?W" by simp_all
  have in2: "SAFETY_CACHE \<in> files ?V" "MODEL_CACHE \<notin> files ?V"
    using caches_differ by simp_all
  have out1: "SAFETY_CACHE \<notin> files example_world" "MODEL_CACHE \<notin> files example_world"
    by (simp_all add: example_world_def)
  have ok: "exit_status ?E ?argv = 0" "exit_status ?E ?argm = 0" by (simp_all add: example_env_def)
  have ko: "exit_status ?F ?argv = 1" "exit_status ?F ?argv \<noteq> 0" by simp_all
  have ko2: "exit_status ?G ?argm = 2" by simp
  have tr: "subprocesses (trace ?W) = []" "subprocesses (trace ?V) = []"
    "subprocesses (trace example_world) = []"
    by (simp_all add: example_world_def)
  note all = provision_contract [where env = ?E and st = example_world and url = SAFETY_URL
      and dest = SAFETY_CACHE]
  from all out1 ok tr(3)
  have s1: "subprocesses (trace (snd (Predictor_setup ?E example_world))) = [?argv, ?argm]"
    by simp
  have s0: "Predictor_setup ?E example_world =
     (None, \<lparr>adapters = [], files = {MODEL_CACHE, SAFETY_CACHE},
       trace = [Subprocess ?argv, FromPretrained SAFETY_CACHE, FromPretrained FEATURE_EXTRACTOR,
                Subprocess ?argm, FromPretrained ''black-forest-labs/FLUX.1-dev'']\<rparr>)"
    using out1 ok caches_differ
    by (simp add: Predictor_setup_def provision_eq Let_def emit_def example_world_def)
  note model = provision_contract [where env = ?G and st = ?V and url = MODEL_URL
      and dest = MODEL_CACHE]
  from model in2 ko2 tr(2)
  have m1: "subprocesses (trace (snd (Predictor_setup ?G ?V))) = [?argm]"
    and m2: "fst (Predictor_setup ?G ?V) = Some (CalledProcessError 2)"
    by simp_all
  from provision_contract [where env = ?E and st = ?W and url = SAFETY_URL and dest = SAFETY_CACHE] in1
  have a: "provision ?E SAFETY_URL SAFETY_CACHE ?W = (None, ?W)"
    and "subprocesses (trace (snd (Predictor_setup ?E ?W))) = subprocesses (trace ?W)"
    by blast+
  then have b: "subprocesses (trace (snd (Predictor_setup ?E ?W))) = []" by (simp only: tr)
  from all out1 ok
  have "provision ?E SAFETY_URL SAFETY_CACHE example_world =
        (None, (emit (Subprocess ?argv) example_world)\<lparr>files := insert SAFETY_CACHE (files example_world)\<rparr>)"
    by blast
  then have c: "provision ?E SAFETY_URL SAFETY_CACHE example_world =
     (None, \<lparr>adapters = [], files = {SAFETY_CACHE}, trace = [Subprocess ?argv]\<rparr>)"
    by (simp add: emit_def example_world_def)
  from provision_contract [where env = ?F and st = example_world and url = SAFETY_URL
      and dest = SAFETY_CACHE] out1 ko(2)
  have "provision ?F SAFETY_URL SAFETY_CACHE example_world =
        (Some (CalledProcessError (exit_status ?F ?argv)), emit (Subprocess ?argv) example_world)"
    and "Predictor_setup ?F example_world =
        (Some (CalledProcessError (exit_status ?F ?argv)), emit (Subprocess ?argv) example_world)"
    by blast+
  then have d: "provision ?F SAFETY_URL SAFETY_CACHE example_world =
     (Some (CalledProcessError 1), \<lparr>adapters = [], files = {}, trace = [Subprocess ?argv]\<rparr>)"
    and e: "Predictor_setup ?F example_world =
     (Some (CalledProcessError 1), \<lparr>adapters = [], files = {}, trace = [Subprocess ?argv]\<rparr>)"
    by (simp_all add: emit_def example_world_def)
  from s0 s1 in2 m1 m2 in1(1) a b out1(1) c d e show ?thesis by (intro conjI)
qed

section \<open>Two requests with the same seed\<close>

lemma outputs_append [simp]: "outputs (xs @ ys) = outputs xs @ outputs ys"
  by (induction xs) (auto split: event.splits)

lemma checked_outputs [simp]: "outputs (trace (checked env req img st)) = outputs (trace st)"
  by (simp add: checked_def)

text \<open>The random source is read for the seed only.\<close>

lemma load_lora_weights_random [simp]:
  "load_lora_weights (env\<lparr>random_source := r\<rparr>) name wn st = load_lora_weights env name wn st"
  by (simp add: load_lora_weights_def Let_def cong: sum.case_cong list.case_cong option.case_cong prod.case_cong)

lemma check_call_random [simp]:
  "check_call (env\<lparr>random_source := r\<rparr>) argv st = check_call env argv st"
  by (simp add: check_call_def Let_def)

lemma download_weights_random [simp]:
  "download_weights (env\<lparr>random_source := r\<rparr>) url dest f st = download_weights env url dest f st"
  by (simp add: download_weights_def cong: sum.case_cong list.case_cong option.case_cong prod.case_cong)

lemma load_from_tar_random [simp]:
  "load_from_tar (env\<lparr>random_source := r\<rparr>) p st = load_from_tar env p st"
  by (simp add: load_from_tar_def Let_def cong: sum.case_cong list.case_cong option.case_cong prod.case_cong)

lemma download_adapter_random [simp]:
  "download_adapter (env\<lparr>random_source := r\<rparr>) u st = download_adapter env u st"
  by (simp add: download_adapter_def Let_def cong: sum.case_cong list.case_cong option.case_cong prod.case_cong)

lemma load_adapter_random [simp]:
  "load_adapter (env\<lparr>random_source := r\<rparr>) u st = load_adapter env u st"
  by (simp add: load_adapter_def cong: sum.case_cong list.case_cong option.case_cong prod.case_cong)

lemma adapter_phase_random [simp]:
  "adapter_phase (env\<lparr>random_source := r\<rparr>) req st = adapter_phase env req st"
  by (simp add: adapter_phase_def cong: sum.case_cong list.case_cong option.case_cong prod.case_cong)

lemma image_loop_random [simp]:
  "image_loop (env\<lparr>random_source := r\<rparr>) req kw ns g cnt st = image_loop env req kw ns g cnt st"
  by (induction ns arbitrary: g cnt st)
     (simp_all add: Let_def run_safety_checker_def split: sum.splits prod.splits bool.splits)


lemma alike_shift:
  "alike r1 s1 r2 s2 \<Longrightarrow> outputs (trace s1) = outputs (trace st1) \<Longrightarrow>
   outputs (trace s2) = outputs (trace st2) \<Longrightarrow> alike r1 st1 r2 st2"
  by (simp add: alike_def)

lemma load_lora_weights_alike:
  "adapters st1 = adapters st2 \<Longrightarrow>
   alike (load_lora_weights env name wn st1) st1 (load_lora_weights env name wn st2) st2"
  by (simp add: alike_def load_lora_weights_def Let_def split: option.splits)

lemma load_from_tar_alike:
  assumes "adapters st1 = adapters st2"
  shows "alike (load_from_tar env p st1) st1 (load_from_tar env p st2) st2"
proof (cases "tar_walk env p (mkdtemp env)")
  case (Inl err)
  with assms show ?thesis by (simp add: load_from_tar_def Let_def alike_def)
next
  case (Inr walk)
  let ?fs = "concat (map (\<lambda>(dirpath, fs). map (path_join dirpath) (filter (endswith ''.safetensors'') fs)) walk)"
  have eq: "load_from_tar env p st =
      (case ?fs of
         [] \<Rightarrow> (Some (Exception ''No .safetensors file found in the tar archive.''),
                emit (ExtractTar p (mkdtemp env)) st)
       | f # _ \<Rightarrow> load_lora_weights env f None (emit (ExtractTar p (mkdtemp env)) st))" for st
    unfolding load_from_tar_def Let_def Inr by simp
  show ?thesis
  proof (cases ?fs)
    case Nil
    show ?thesis unfolding eq Nil using assms by (simp add: alike_def)
  next
    case (Cons f rest)
    let ?s1 = "emit (ExtractTar p (mkdtemp env)) st1"
    let ?s2 = "emit (ExtractTar p (mkdtemp env)) st2"
    from assms have "alike (load_lora_weights env f None ?s1) ?s1 (load_lora_weights env f None ?s2) ?s2"
      by (intro load_lora_weights_alike) simp
    then have "alike (load_lora_weights env f None ?s1) st1 (load_lora_weights env f None ?s2) st2"
      by (rule alike_shift) simp_all
    then show ?thesis unfolding eq Cons by simp
  qed
qed

lemma download_adapter_alike:
  assumes "adapters st1 = adapters st2"
  shows "alike (download_adapter env u st1) st1 (download_adapter env u st2) st2"
proof -
  define ext where "ext = (if endswith ''.tar'' u \<or> contains ''replicate.delivery'' u
             then ''tar'' else ''safetensors'')"
  define p where "p = ''/tmp/lora.'' @ ext"
  define s1 where "s1 = (if p \<in> files st1 then os_remove p st1 else st1)"
  define s2 where "s2 = (if p \<in> files st2 then os_remove p st2 else st2)"
  obtain e1 t1 where d1: "download_weights env u p True s1 = (e1, t1)"
    by (cases "download_weights env u p True s1")
  obtain e2 t2 where d2: "download_weights env u p True s2 = (e2, t2)"
    by (cases "download_weights env u p True s2")
  from download_weights_trace [OF d1] download_weights_trace [OF d2]
  have e: "e1 = e2" and a: "adapters t1 = adapters s1" "adapters t2 = adapters s2"
    and o: "outputs (trace t1) = outputs (trace s1)" "outputs (trace t2) = outputs (trace s2)"
    by simp_all
  have s: "adapters s1 = adapters st1" "adapters s2 = adapters st2"
    "outputs (trace s1) = outputs (trace st1)" "outputs (trace s2) = outputs (trace st2)"
    by (simp_all add: s1_def s2_def)
  from a s assms have at: "adapters t1 = adapters t2" by simp
  from o s have ot: "outputs (trace t1) = outputs (trace st1)" "outputs (trace t2) = outputs (trace st2)"
    by simp_all
  have r1: "download_adapter env u st1 =
      (case e1 of Some err \<Rightarrow> (Some err, t1)
       | None \<Rightarrow> if ext = ''tar'' then load_from_tar env p t1 else load_lora_weights env p None t1)"
    using d1 by (auto simp add: download_adapter_def Let_def ext_def p_def s1_def split: option.splits)
  have r2: "download_adapter env u st2 =
      (case e2 of Some err \<Rightarrow> (Some err, t2)
       | None \<Rightarrow> if ext = ''tar'' then load_from_tar env p t2 else load_lora_weights env p None t2)"
    using d2 by (auto simp add: download_adapter_def Let_def ext_def p_def s2_def split: option.splits)
  show ?thesis
  proof (cases e1)
    case (Some err)
    with e have e2: "e2 = Some err" by simp
    show ?thesis unfolding r1 r2 Some e2 using at ot by (simp add: alike_def)
  next
    case None
    with e have e2: "e2 = None" by simp
    show ?thesis
    proof (cases "ext = ''tar''")
      case True
      from load_from_tar_alike [OF at] have "alike (load_from_tar env p t1) t1 (load_from_tar env p t2) t2" .
      then have "alike (load_from_tar env p t1) st1 (load_from_tar env p t2) st2"
        using ot by (rule alike_shift)
      then show ?thesis unfolding r1 r2 None e2 using True by simp
    next
      case False
      from load_lora_weights_alike [OF at]
      have "alike (load_lora_weights env p None t1) t1 (load_lora_weights env p None t2) t2" .
      then have "alike (load_lora_weights env p None t1) st1 (load_lora_weights env p None t2) st2"
        using ot by (rule alike_shift)
      then show ?thesis unfolding r1 r2 None e2 using False by simp
    qed
  qed
qed

lemma load_adapter_alike:
  assumes "adapters st1 = adapters st2"
  shows "alike (load_adapter env u st1) st1 (load_adapter env u st2) st2"
proof -
  consider (path) "match_hf_path u"
    | (url) "\<not> match_hf_path u" "match_hf_url u"
    | (download) "\<not> match_hf_path u" "\<not> match_hf_url u" "match_weight_url u \<or> match_replicate_url u"
    | (invalid) "\<not> match_hf_path u" "\<not> match_hf_url u" "\<not> match_weight_url u" "\<not> match_replicate_url u"
    by blast
  then show ?thesis
  proof cases
    case path
    with load_lora_weights_alike [OF assms] show ?thesis by (simp add: load_adapter_registry)
  next
    case url
    with load_lora_weights_alike [OF assms] assms show ?thesis
      by (cases "search_hf_slug u") (simp_all add: load_adapter_hf_url alike_def)
  next
    case download
    with download_adapter_alike [OF assms] show ?thesis by (simp add: load_adapter_download)
  next
    case invalid
    with assms show ?thesis by (simp add: load_adapter_invalid alike_def)
  qed
qed

lemma adapter_phase_alike:
  assumes "hf_lora req = None \<or> adapters st1 = adapters st2"
  shows "alike (adapter_phase env req st1) st1 (adapter_phase env req st2) st2"
proof (cases "hf_lora req")
  case None
  then show ?thesis by (simp add: adapter_phase_def alike_def)
next
  case (Some u)
  with assms have "adapters st1 = adapters st2" by simp
  from load_adapter_alike [OF this] Some show ?thesis by (simp add: adapter_phase_def)
qed

lemma image_loop_alike:
  assumes "adapters st1 = adapters st2"
  shows "\<exists>e ys n s1 s2 X.
           image_loop env req kw ns g cnt st1 = (e, ys, n, s1) \<and>
           image_loop env req kw ns g cnt st2 = (e, ys, n, s2) \<and>
           outputs (trace s1) = outputs (trace st1) @ X \<and>
           outputs (trace s2) = outputs (trace st2) @ X"
  using assms
proof (induction ns arbitrary: g cnt st1 st2)
  case Nil
  then show ?case by simp
next
  case (Cons i rest)
  show ?case
  proof (cases rule: image_loop_cases [where env=env and kw=kw and st=st1 and g=g and req=req])
    case (raise err)
    then have "pipe env kw (adapters st2) g = Inl err" using Cons.prems by simp
    with raise show ?thesis by (simp del: image_loop.simps add: image_loop_raise)
  next
    case (flagged img g')
    then have p2: "pipe env kw (adapters st2) g = Inr (img, g')" using Cons.prems by simp
    let ?t1 = "checked env req img (emit (PipeCall kw) st1)"
    let ?t2 = "checked env req img (emit (PipeCall kw) st2)"
    from Cons.prems have "adapters ?t1 = adapters ?t2" by simp
    from Cons.IH [OF this, of g' cnt] obtain e ys n s1 s2 X where
      "image_loop env req kw rest g' cnt ?t1 = (e, ys, n, s1)"
      "image_loop env req kw rest g' cnt ?t2 = (e, ys, n, s2)"
      "outputs (trace s1) = outputs (trace ?t1) @ X" "outputs (trace s2) = outputs (trace ?t2) @ X"
      by blast
    with flagged p2 show ?thesis
      by (simp del: image_loop.simps add: image_loop_flagged)
  next
    case (accepted img g')
    then have p2: "pipe env kw (adapters st2) g = Inr (img, g')" using Cons.prems by simp
    let ?path = "out_path cnt (output_format req)"
    let ?t1 = "image_save img ?path (save_kwargs req) (checked env req img (emit (PipeCall kw) st1))"
    let ?t2 = "image_save img ?path (save_kwargs req) (checked env req img (emit (PipeCall kw) st2))"
    from Cons.prems have "adapters ?t1 = adapters ?t2" by simp
    from Cons.IH [OF this, of g' "Suc cnt"] obtain e ys n s1 s2 X where
      "image_loop env req kw rest g' (Suc cnt) ?t1 = (e, ys, n, s1)"
      "image_loop env req kw rest g' (Suc cnt) ?t2 = (e, ys, n, s2)"
      "outputs (trace s1) = outputs (trace ?t1) @ X" "outputs (trace s2) = outputs (trace ?t2) @ X"
      by blast
    with accepted p2 show ?thesis
      by (simp del: image_loop.simps add: image_loop_accepted)
  qed
qed


lemma int_from_two_bytes_inj:
  "int_from_bytes_big [a, b] = int_from_bytes_big [c, d] \<Longrightarrow> a = c \<and> b = d"
proof -
  assume eq: "int_from_bytes_big [a, b] = int_from_bytes_big [c, d]"
  have split: "(uint x * 256 + uint y) div 256 = uint x \<and> (uint x * 256 + uint y) mod 256 = uint y"
    for x y :: "8 word"
  proof -
    have "0 \<le> uint y" "uint y < 256" using uint_lt2p [of y] by simp_all
    then show ?thesis by (simp add: div_pos_pos_trivial mod_pos_pos_trivial)
  qed
  from eq have e: "uint a * 256 + uint b = uint c * 256 + uint d"
    by (simp add: int_from_bytes_big_def)
  have "uint a = (uint a * 256 + uint b) div 256" using split [of a b] by simp
  also have "\<dots> = uint c" unfolding e using split [of c d] by simp
  finally have 1: "uint a = uint c" .
  have "uint b = (uint a * 256 + uint b) mod 256" using split [of a b] by simp
  also have "\<dots> = uint d" unfolding e using split [of c d] by simp
  finally have 2: "uint b = uint d" .
  from 1 2 show ?thesis by (simp add: word_uint_eq_iff)
qed

lemma predict_two_runs:
  assumes explicit: "seed req = Some s"
    and same: "hf_lora req = None \<or> adapters st1 = adapters st2"
  shows "\<exists>X. fst (predict env req st1) = fst (predict (env\<lparr>random_source := r\<rparr>) req st2) \<and>
             fst (snd (predict env req st1)) = fst (snd (predict (env\<lparr>random_source := r\<rparr>) req st2)) \<and>
             outputs (trace (snd (snd (predict env req st1)))) = outputs (trace st1) @ X \<and>
             outputs (trace (snd (snd (predict (env\<lparr>random_source := r\<rparr>) req st2)))) =
               outputs (trace st2) @ X"
proof -
  let ?env = "env\<lparr>random_source := r\<rparr>"
  have sd: "request_seed ?env req = request_seed env req"
    using explicit by (simp add: request_seed_def)
  show ?thesis
  proof (cases "aspect_ratio_to_width_height (aspect_ratio req)")
    case None
    then show ?thesis by (simp add: predict_no_ratio)
  next
    case (Some wh)
    obtain w h where wh: "wh = (w, h)" by (cases wh)
    with Some have ar: "aspect_ratio_to_width_height (aspect_ratio req) = Some (w, h)" by simp
    obtain e1 t1 where p1: "adapter_phase env req st1 = (e1, t1)"
      by (cases "adapter_phase env req st1")
    obtain e2 t2 where p2: "adapter_phase env req st2 = (e2, t2)"
      by (cases "adapter_phase env req st2")
    from adapter_phase_alike [OF same, of env] p1 p2
    have e: "e2 = e1" and a: "adapters t1 = adapters t2"
      and o: "outputs (trace t1) = outputs (trace st1)" "outputs (trace t2) = outputs (trace st2)"
      by (simp_all add: alike_def)
    show ?thesis
    proof (cases e1)
      case (Some err)
      from predict_no_adapter [OF ar, of env st1 err t1] p1 Some
      have r1: "predict env req st1 = (Some err, [], t1)" by simp
      from predict_no_adapter [OF ar, of ?env st2 err t2] p2 e Some
      have r2: "predict ?env req st2 = (Some err, [], t2)" by simp
      show ?thesis unfolding r1 r2 using o by simp
    next
      case None
      let ?g = "manual_seed env (request_seed env req)"
      let ?u1 = "emit (ManualSeed (request_seed env req)) t1"
      let ?u2 = "emit (ManualSeed (request_seed env req)) t2"
      from a have "adapters ?u1 = adapters ?u2" by simp
      from image_loop_alike [OF this, of env req "pipe_kwargs req w h" "[0..<nat (num_outputs req)]" ?g 0]
      obtain e3 ys n s1 s2 X where
        l1: "image_loop env req (pipe_kwargs req w h) [0..<nat (num_outputs req)] ?g 0 ?u1 = (e3, ys, n, s1)"
        and l2: "image_loop env req (pipe_kwargs req w h) [0..<nat (num_outputs req)] ?g 0 ?u2 = (e3, ys, n, s2)"
        and x1: "outputs (trace s1) = outputs (trace ?u1) @ X"
        and x2: "outputs (trace s2) = outputs (trace ?u2) @ X"
        by blast
      from p1 None have q1: "adapter_phase env req st1 = (None, t1)" by simp
      from p2 e None have q2: "adapter_phase ?env req st2 = (None, t2)" by simp
      from l2 have l2': "image_loop ?env req (pipe_kwargs req w h) [0..<nat (num_outputs req)]
          (manual_seed ?env (request_seed ?env req)) 0 (emit (ManualSeed (request_seed ?env req)) t2) =
          (e3, ys, n, s2)"
        by (simp add: sd)
      note r1 = predict_loop [OF ar q1 l1]
      note r2 = predict_loop [OF ar q2 l2']
      from x1 o have y1: "outputs (trace s1) = outputs (trace st1) @ X" by simp
      from x2 o have y2: "outputs (trace s2) = outputs (trace st2) @ X" by simp
      show ?thesis unfolding r1 r2 using y1 y2 by (cases e3) auto
    qed
  qed
qed

lemmas adapter_run_defs = adapter_env_def run_defs example_defs match_defs

lemma adapter_env_runs:
  "map fst (outputs (trace (snd (snd (predict (adapter_env (\<lambda>g. False))
      (example_request\<lparr>seed := Some 42, hf_lora := Some ''a/b''\<rparr>) example_world))))) = [1042]"
  "adapters (snd (snd (predict (adapter_env (\<lambda>g. True))
      (example_request\<lparr>seed := Some 42, hf_lora := Some ''a/b''\<rparr>) example_world))) = [(''a/b'', None)]"
  "map fst (outputs (trace (snd (snd (predict (adapter_env (\<lambda>g. False))
      (example_request\<lparr>seed := Some 42, hf_lora := Some ''a/b''\<rparr>)
      (snd (snd (predict (adapter_env (\<lambda>g. True))
         (example_request\<lparr>seed := Some 42, hf_lora := Some ''a/b''\<rparr>) example_world)))))))) = [2042]"
  by (simp_all add: adapter_run_defs)


text \<open>
  Claim C6, as the code has it. Take two requests with the same explicit seed and the
  same parameters, run at different times: on any two process states when the request
  carries no adapter reference, on two states with the same adapters attached when it
  carries one, and whatever the random source gives. They end alike, yield the same
  paths and save the same images under the same paths with the same arguments. When the
  seed is omitted it is the number of two bytes of the random source, and two such
  numbers are equal only when the bytes are: nothing is said about how likely that is.
\<close>

theorem same_seed_same_images:
  "(seed req = Some s \<and> (hf_lora req = None \<or> adapters st1 = adapters st2) \<longrightarrow>
      (\<exists>X. fst (predict env req st1) = fst (predict (env\<lparr>random_source := r\<rparr>) req st2) \<and>
           fst (snd (predict env req st1)) =
             fst (snd (predict (env\<lparr>random_source := r\<rparr>) req st2)) \<and>
           outputs (trace (snd (snd (predict env req st1)))) = outputs (trace st1) @ X \<and>
           outputs (trace (snd (snd (predict (env\<lparr>random_source := r\<rparr>) req st2)))) =
             outputs (trace st2) @ X)) \<and>
   (seed req = None \<longrightarrow>
      request_seed env req = int_from_bytes_big [random_source env 0, random_source env 1]) \<and>
   (int_from_bytes_big [a, b] = int_from_bytes_big [c, d] \<longrightarrow> a = c \<and> b = d)"
  using predict_two_runs [of req s st1 st2 env r] int_from_two_bytes_inj [of a b c d]
  by (auto simp add: request_seed_def os_urandom_2)

theorem same_seed_same_images_witness:
  "seed (example_request\<lparr>seed := Some 42\<rparr>) = Some 42 \<and>
   hf_lora (example_request\<lparr>seed := Some 42\<rparr>) = None \<and>
   map fst (outputs (trace (snd (snd (predict (adapter_env (\<lambda>g. False))
      (example_request\<lparr>seed := Some 42\<rparr>) example_world))))) = [42] \<and>
   map fst (outputs (trace (snd (snd (predict ((adapter_env (\<lambda>g. False))\<lparr>random_source := \<lambda>i. 9\<rparr>)
      (example_request\<lparr>seed := Some 42\<rparr>)
      (example_world\<lparr>adapters := [(''a/b'', None)], files := {''/tmp/lora.tar''}\<rparr>)))))) = [42]"
proof -
  let ?E = "adapter_env (\<lambda>g. False)"
  let ?R = "example_request\<lparr>seed := Some 42\<rparr>"
  let ?W = "example_world\<lparr>adapters := [(''a/b'', None)], files := {''/tmp/lora.tar''}\<rparr>"
  let ?p = "predict ?E ?R example_world"
  let ?q = "predict (?E\<lparr>random_source := \<lambda>i. 9\<rparr>) ?R ?W"
  have h: "seed ?R = Some 42" "hf_lora ?R = None" by (simp_all add: example_request_def)
  have w: "outputs (trace example_world) = []" "outputs (trace ?W) = []"
    by (simp_all add: example_world_def)
  from same_seed_same_images [where req = ?R and s = 42 and ?st1.0 = example_world
      and ?st2.0 = ?W and env = ?E and r = "\<lambda>i. 9"] h
  obtain X where "outputs (trace (snd (snd ?p))) = outputs (trace example_world) @ X"
    "outputs (trace (snd (snd ?q))) = outputs (trace ?W) @ X"
    by blast
  then have same: "outputs (trace (snd (snd ?q))) = outputs (trace (snd (snd ?p)))"
    by (simp only: w append_Nil)
  have first: "map fst (outputs (trace (snd (snd ?p)))) = [42]"
    by (simp add: adapter_run_defs)
  from h first same show ?thesis by simp
qed

text \<open>
  Claim C6 as the specification words it fails for a request with an adapter reference.
  A request whose pipeline call raises leaves its adapter attached; the same request
  sent again with the same explicit seed then loads the adapter a second time, so its
  pipeline runs with other adapters than it does on a fresh process and, in the
  environment above, saves another image.
\<close>

theorem stale_adapter_counterexample:
  "seed (example_request\<lparr>seed := Some 42, hf_lora := Some ''a/b''\<rparr>) = Some 42 \<and>
   map fst (outputs (trace (snd (snd (predict (adapter_env (\<lambda>g. False))
      (example_request\<lparr>seed := Some 42, hf_lora := Some ''a/b''\<rparr>) example_world))))) = [1042] \<and>
   adapters (snd (snd (predict (adapter_env (\<lambda>g. True))
      (example_request\<lparr>seed := Some 42, hf_lora := Some ''a/b''\<rparr>) example_world))) =
     [(''a/b'', None)] \<and>
   map fst (outputs (trace (snd (snd (predict (adapter_env (\<lambda>g. False))
      (example_request\<lparr>seed := Some 42, hf_lora := Some ''a/b''\<rparr>)
      (snd (snd (predict (adapter_env (\<lambda>g. True))
         (example_request\<lparr>seed := Some 42, hf_lora := Some ''a/b''\<rparr>) example_world)))))))) = [2042]"
  using adapter_env_runs by (simp add: example_request_def)

end
